theory Spec2Isabelle
  imports
    Complex_Main
    "HOL-Library.Char_ord"
    "HOL-Library.List_Lexorder"
    "HOL-Library.Product_Lexorder"
begin

section \<open>The business-case notebook: event simulator and KPI table\<close>

text \<open>
  The development follows \<^verbatim>\<open>business-case.ipynb\<close>: the cell that seeds NumPy's global
  generator, the cell with the simulation parameters, the simulation loop that builds
  \<^verbatim>\<open>data\<close>, and the cell that builds \<^verbatim>\<open>kpi_data\<close>.

  Numbers: a float64 is a value of \<open>fval\<close>, a real number or one of the three special
  values of IEEE arithmetic. Finite arithmetic is exact (no rounding, no overflow) and
  zero has no sign; the counts and sums that reach a division are never negative zero.
\<close>

subsection \<open>Exceptions\<close>

datatype error = ValueError | KeyError | TypeError

definition bind :: "error + 'a \<Rightarrow> ('a \<Rightarrow> error + 'b) \<Rightarrow> error + 'b" where
  "bind m f = (case m of Inl e \<Rightarrow> Inl e | Inr x \<Rightarrow> f x)"

subsection \<open>NumPy's generator\<close>

text \<open>
  NumPy is not part of the repository. Its bit generator is a parameter: a state type
  \<open>'g\<close> with the seeding function, the draw of one double of \<open>[0, 1)\<close> and the draw of
  one integer of \<open>[0, n)\<close>. The functions of \<^verbatim>\<open>np.random\<close> that the notebook calls are
  written over these three.
\<close>

record 'g bitgen =
  init :: "nat \<Rightarrow> 'g"
  next_double :: "'g \<Rightarrow> real \<times> 'g"
  bounded :: "nat \<Rightarrow> 'g \<Rightarrow> nat \<times> 'g"

text \<open>What NumPy promises of the draws: a double lies in \<open>[0, 1)\<close>, an integer below its bound.\<close>

definition bitgen_ok :: "'g bitgen \<Rightarrow> bool" where
  "bitgen_ok G \<longleftrightarrow>
     (\<forall>g. 0 \<le> fst (next_double G g) \<and> fst (next_double G g) < 1) \<and>
     (\<forall>n g. 0 < n \<longrightarrow> fst (bounded G n g) < n)"

text \<open>\<^verbatim>\<open>np.random.seed(s)\<close>: the global state is overwritten.\<close>

definition seed :: "'g bitgen \<Rightarrow> nat \<Rightarrow> 'g \<Rightarrow> 'g" where
  "seed G s g = init G s"

text \<open>\<^verbatim>\<open>np.random.rand(n)\<close>: \<open>n\<close> doubles, drawn one after the other.\<close>

fun rand :: "'g bitgen \<Rightarrow> nat \<Rightarrow> 'g \<Rightarrow> real list \<times> 'g" where
  "rand G 0 g = ([], g)"
| "rand G (Suc n) g =
     (case next_double G g of (u, g') \<Rightarrow>
        (case rand G n g' of (us, g'') \<Rightarrow> (u # us, g'')))"

text \<open>\<^verbatim>\<open>np.random.uniform(low, high, size=n)\<close>: \<open>low + (high - low) * u\<close> for \<open>n\<close> doubles.\<close>

definition uniform :: "'g bitgen \<Rightarrow> real \<Rightarrow> real \<Rightarrow> nat \<Rightarrow> 'g \<Rightarrow> real list \<times> 'g" where
  "uniform G low high n g =
     (case rand G n g of (us, g') \<Rightarrow> (map (\<lambda>u. low + (high - low) * u) us, g'))"

text \<open>\<^verbatim>\<open>np.random.randint(low, high, size=1)[0]\<close>: raises ValueError unless \<open>low < high\<close>.\<close>

definition randint :: "'g bitgen \<Rightarrow> nat \<Rightarrow> nat \<Rightarrow> 'g \<Rightarrow> error + (nat \<times> 'g)" where
  "randint G low high g =
     (if low < high
      then (case bounded G (high - low) g of (k, g') \<Rightarrow> Inr (low + k, g'))
      else Inl ValueError)"

fun integers :: "'g bitgen \<Rightarrow> nat \<Rightarrow> nat \<Rightarrow> 'g \<Rightarrow> nat list \<times> 'g" where
  "integers G m 0 g = ([], g)"
| "integers G m (Suc n) g =
     (case bounded G m g of (k, g') \<Rightarrow>
        (case integers G m n g' of (ks, g'') \<Rightarrow> (k # ks, g'')))"

text \<open>
  \<^verbatim>\<open>np.random.choice(a, size=n, replace=True)\<close>: \<open>n\<close> indices below \<open>len(a)\<close>, then
  \<open>a[idx]\<close>. An empty \<open>a\<close> raises ValueError unless no sample is taken. The indices are
  in range for a generator that satisfies \<open>bitgen_ok\<close>.
\<close>

definition choice :: "'g bitgen \<Rightarrow> 'a list \<Rightarrow> nat \<Rightarrow> 'g \<Rightarrow> error + ('a list \<times> 'g)" where
  "choice G a n g =
     (if a = [] \<and> n \<noteq> 0 then Inl ValueError
      else (case integers G (length a) n g of (ks, g') \<Rightarrow> Inr (map (\<lambda>k. a ! k) ks, g')))"

subsection \<open>Simulation parameters\<close>

text \<open>
  The parameter cell. \<open>events_per_day\<close> is the notebook's lambda; the list of groups is
  the literal of the inner loop. A date is the number of days after 2024-01-01.
\<close>

record 'g config =
  num_days :: nat
  num_users :: nat
  events_per_day :: "'g \<Rightarrow> error + (nat \<times> 'g)"
  group_list :: "string list"
  revenue_global :: bool
  r_revenue_global :: "real \<times> real"
  p_click_control :: real
  p_purchase_control :: real
  r_revenue_control :: "real \<times> real"
  p_click_treatment :: real
  p_purchase_treatment :: real
  r_revenue_treatment :: "real \<times> real"

definition dates :: "'g config \<Rightarrow> nat list" where
  "dates cfg = [0..<num_days cfg]"

definition users :: "'g config \<Rightarrow> nat list" where
  "users cfg = [1000..<1000 + num_users cfg]"

definition reference :: "'g bitgen \<Rightarrow> 'g config" where
  "reference G =
     \<lparr> num_days = 30,
       num_users = 3000,
       events_per_day = randint G 150 200,
       group_list = [''control'', ''treatment''],
       revenue_global = True,
       r_revenue_global = (20, 200),
       p_click_control = 15 / 100,
       p_purchase_control = 5 / 100,
       r_revenue_control = (200, 300),
       p_click_treatment = 25 / 100,
       p_purchase_treatment = 10 / 100,
       r_revenue_treatment = (20, 100) \<rparr>"

subsection \<open>The Event table\<close>

record event =
  user_id :: nat
  date :: nat
  event_type :: string
  group_name :: string
  revenue :: real

text \<open>An array of dtype \<^verbatim>\<open>U10\<close> keeps the first ten characters of what is stored in it.\<close>

definition U10 :: "string \<Rightarrow> string" where
  "U10 s = take 10 s"

text \<open>\<^verbatim>\<open>arr[mask] = v\<close> for a scalar \<open>v\<close>.\<close>

definition set_masked :: "'a list \<Rightarrow> bool list \<Rightarrow> 'a \<Rightarrow> 'a list" where
  "set_masked arr msk v = map (\<lambda>(x, m). if m then v else x) (zip arr msk)"

text \<open>
  \<^verbatim>\<open>arr[mask] = vs\<close> for an array \<open>vs\<close>: the values go to the selected places in order.
  NumPy raises when \<open>vs\<close> has not one value for each selected place; the notebook draws
  exactly \<^verbatim>\<open>purchase_mask.sum()\<close> values.
\<close>

fun put_masked :: "'a list \<Rightarrow> bool list \<Rightarrow> 'a list \<Rightarrow> 'a list" where
  "put_masked (x # xs) (m # ms) vs =
     (if m then (case vs of [] \<Rightarrow> x # put_masked xs ms [] | v # vs' \<Rightarrow> v # put_masked xs ms vs')
      else x # put_masked xs ms vs)"
| "put_masked xs ms vs = xs"

text \<open>The array statements of the loop body, from the two vectors of doubles to the labels.\<close>

definition click_mask :: "real \<Rightarrow> real list \<Rightarrow> bool list" where
  "click_mask p_click u_click = map (\<lambda>u. u < p_click) u_click"

definition purchase_mask :: "real \<Rightarrow> real \<Rightarrow> real list \<Rightarrow> real list \<Rightarrow> bool list" where
  "purchase_mask p_click p_purchase u_click u_purchase =
     map (\<lambda>(c, u). c \<and> u < p_purchase) (zip (click_mask p_click u_click) u_purchase)"

definition event_types :: "nat \<Rightarrow> real \<Rightarrow> real \<Rightarrow> real list \<Rightarrow> real list \<Rightarrow> string list" where
  "event_types num_views p_click p_purchase u_click u_purchase =
     (let t0 = replicate num_views (U10 ''view'');
          t1 = set_masked t0 (click_mask p_click u_click) (U10 ''click'')
      in set_masked t1 (purchase_mask p_click p_purchase u_click u_purchase) (U10 ''purchase''))"

text \<open>The parameters of a group: the \<^verbatim>\<open>if group == 'control'\<close> of the loop body.\<close>

definition p_click :: "'g config \<Rightarrow> string \<Rightarrow> real" where
  "p_click cfg grp = (if grp = ''control'' then p_click_control cfg else p_click_treatment cfg)"

definition p_purchase :: "'g config \<Rightarrow> string \<Rightarrow> real" where
  "p_purchase cfg grp =
     (if grp = ''control'' then p_purchase_control cfg else p_purchase_treatment cfg)"

definition r_revenue :: "'g config \<Rightarrow> string \<Rightarrow> real \<times> real" where
  "r_revenue cfg grp =
     (if revenue_global cfg then r_revenue_global cfg
      else if grp = ''control'' then r_revenue_control cfg else r_revenue_treatment cfg)"

text \<open>
  One pass of the loop body: the frame \<^verbatim>\<open>day_data\<close> of a date and a group, and the
  generator state it leaves. The five calls of \<^verbatim>\<open>np.random\<close> happen in the order of
  the source.
\<close>

definition day_data ::
  "'g bitgen \<Rightarrow> 'g config \<Rightarrow> nat \<Rightarrow> string \<Rightarrow> 'g \<Rightarrow> error + (event list \<times> 'g)" where
  "day_data G cfg d grp g0 =
     bind (events_per_day cfg g0) (\<lambda>(num_views, g1).
     bind (choice G (users cfg) num_views g1) (\<lambda>(user_ids, g2).
       (case rand G num_views g2 of (u_click, g3) \<Rightarrow>
       (case rand G num_views g3 of (u_purchase, g4) \<Rightarrow>
          (let pm = purchase_mask (p_click cfg grp) (p_purchase cfg grp) u_click u_purchase;
               types = event_types num_views (p_click cfg grp) (p_purchase cfg grp)
                         u_click u_purchase;
               num_purchases = length (filter id pm)
           in (case uniform G (fst (r_revenue cfg grp)) (snd (r_revenue cfg grp))
                      num_purchases g4 of (drawn, g5) \<Rightarrow>
                 (let revenues = put_masked (replicate num_views 0) pm drawn
                  in Inr (map (\<lambda>(uid, t, r).
                            \<lparr> user_id = uid, date = d, event_type = t,
                              group_name = grp, revenue = r \<rparr>)
                          (zip user_ids (zip types revenues)), g5))))))))"

text \<open>The two nested loops; \<open>data_list\<close> is the accumulator that \<^verbatim>\<open>append\<close> extends.\<close>

fun group_loop ::
  "'g bitgen \<Rightarrow> 'g config \<Rightarrow> nat \<Rightarrow> string list \<Rightarrow> event list list \<Rightarrow> 'g
     \<Rightarrow> error + (event list list \<times> 'g)" where
  "group_loop G cfg d [] data_list g = Inr (data_list, g)"
| "group_loop G cfg d (grp # grps) data_list g =
     bind (day_data G cfg d grp g) (\<lambda>(day, g').
       group_loop G cfg d grps (data_list @ [day]) g')"

fun date_loop ::
  "'g bitgen \<Rightarrow> 'g config \<Rightarrow> nat list \<Rightarrow> event list list \<Rightarrow> 'g
     \<Rightarrow> error + (event list list \<times> 'g)" where
  "date_loop G cfg [] data_list g = Inr (data_list, g)"
| "date_loop G cfg (d # ds) data_list g =
     bind (group_loop G cfg d (group_list cfg) data_list g) (\<lambda>(data_list', g').
       date_loop G cfg ds data_list' g')"

text \<open>\<^verbatim>\<open>pd.concat(data_list, ignore_index=True)\<close>: raises ValueError on an empty list.\<close>

definition concat_frames :: "event list list \<Rightarrow> error + event list" where
  "concat_frames data_list = (if data_list = [] then Inl ValueError else Inr (concat data_list))"

definition simulate :: "'g bitgen \<Rightarrow> 'g config \<Rightarrow> 'g \<Rightarrow> error + (event list \<times> 'g)" where
  "simulate G cfg g =
     bind (date_loop G cfg (dates cfg) [] g) (\<lambda>(data_list, g').
     bind (concat_frames data_list) (\<lambda>data. Inr (data, g')))"

subsection \<open>Floating-point values\<close>

datatype fval = Fin real | PInf | NInf | NaN

text \<open>Division and multiplication of float64 values, with the IEEE results at zero and infinity.\<close>

fun fdiv :: "fval \<Rightarrow> fval \<Rightarrow> fval" where
  "fdiv (Fin a) (Fin b) =
     (if b = 0 then (if a = 0 then NaN else if 0 < a then PInf else NInf) else Fin (a / b))"
| "fdiv (Fin a) PInf = Fin 0"
| "fdiv (Fin a) NInf = Fin 0"
| "fdiv PInf (Fin b) = (if 0 \<le> b then PInf else NInf)"
| "fdiv NInf (Fin b) = (if 0 \<le> b then NInf else PInf)"
| "fdiv x y = NaN"

fun fmul :: "fval \<Rightarrow> fval \<Rightarrow> fval" where
  "fmul (Fin a) (Fin b) = Fin (a * b)"
| "fmul (Fin a) PInf = (if a = 0 then NaN else if 0 < a then PInf else NInf)"
| "fmul (Fin a) NInf = (if a = 0 then NaN else if 0 < a then NInf else PInf)"
| "fmul PInf (Fin b) = (if b = 0 then NaN else if 0 < b then PInf else NInf)"
| "fmul NInf (Fin b) = (if b = 0 then NaN else if 0 < b then NInf else PInf)"
| "fmul PInf PInf = PInf"
| "fmul NInf NInf = PInf"
| "fmul PInf NInf = NInf"
| "fmul NInf PInf = NInf"
| "fmul x y = NaN"

subsection \<open>Data frames\<close>

text \<open>
  The KPI table is built column by column, so it is a list of named, typed columns in
  the order pandas keeps them.
\<close>

datatype column = StrCol "string list" | DayCol "nat list" | NumCol "fval list"

type_synonym frame = "(string \<times> column) list"

text \<open>\<^verbatim>\<open>df[c]\<close>: raises KeyError for a column that is not there.\<close>

definition getitem :: "frame \<Rightarrow> string \<Rightarrow> error + column" where
  "getitem df c = (case map_of df c of None \<Rightarrow> Inl KeyError | Some col \<Rightarrow> Inr col)"

text \<open>\<^verbatim>\<open>df[c] = col\<close>: replaces the column in place, or appends a new one.\<close>

definition setitem :: "frame \<Rightarrow> string \<Rightarrow> column \<Rightarrow> frame" where
  "setitem df c col =
     (if c \<in> set (map fst df) then map (\<lambda>(c', col'). if c' = c then (c', col) else (c', col')) df
      else df @ [(c, col)])"

text \<open>Element-wise arithmetic of two columns of one frame; only numbers divide.\<close>

fun col_div :: "column \<Rightarrow> column \<Rightarrow> error + column" where
  "col_div (NumCol xs) (NumCol ys) = Inr (NumCol (map (\<lambda>(x, y). fdiv x y) (zip xs ys)))"
| "col_div a b = Inl TypeError"

fun col_mul :: "column \<Rightarrow> real \<Rightarrow> error + column" where
  "col_mul (NumCol xs) k = Inr (NumCol (map (\<lambda>x. fmul x (Fin k)) xs))"
| "col_mul a k = Inl TypeError"

text \<open>\<^verbatim>\<open>df.replace([np.inf, -np.inf], np.nan, inplace=True)\<close>, on every column.\<close>

definition replace_inf :: "fval \<Rightarrow> fval" where
  "replace_inf x = (if x = PInf \<or> x = NInf then NaN else x)"

fun replace_col :: "column \<Rightarrow> column" where
  "replace_col (NumCol xs) = NumCol (map replace_inf xs)"
| "replace_col col = col"

definition replace :: "frame \<Rightarrow> frame" where
  "replace df = map (\<lambda>(c, col). (c, replace_col col)) df"

text \<open>\<^verbatim>\<open>df.fillna(v, inplace=True)\<close>, on every column.\<close>

definition fill :: "real \<Rightarrow> fval \<Rightarrow> fval" where
  "fill v x = (if x = NaN then Fin v else x)"

fun fillna_col :: "real \<Rightarrow> column \<Rightarrow> column" where
  "fillna_col v (NumCol xs) = NumCol (map (fill v) xs)"
| "fillna_col v col = col"

definition fillna :: "frame \<Rightarrow> real \<Rightarrow> frame" where
  "fillna df v = map (\<lambda>(c, col). (c, fillna_col v col)) df"

subsection \<open>The KPI table\<close>

text \<open>
  \<^verbatim>\<open>data.groupby(['group', 'date'])\<close>: one group for each pair that occurs in the
  table, in ascending order of the pair.
\<close>

definition key :: "event \<Rightarrow> string \<times> nat" where
  "key e = (group_name e, date e)"

definition group_keys :: "event list \<Rightarrow> (string \<times> nat) list" where
  "group_keys data = sort (remdups (map key data))"

definition rows_of :: "event list \<Rightarrow> string \<times> nat \<Rightarrow> event list" where
  "rows_of data k = filter (\<lambda>e. key e = k) data"

text \<open>\<^verbatim>\<open>np.sum(x['event_type'] == t)\<close>, stored in a float64 Series.\<close>

definition count_type :: "string \<Rightarrow> event list \<Rightarrow> fval" where
  "count_type t x = Fin (real (length (filter (\<lambda>e. event_type e = t) x)))"

definition sum_revenue :: "event list \<Rightarrow> fval" where
  "sum_revenue x = Fin (sum_list (map revenue x))"

text \<open>
  \<^verbatim>\<open>grouped_data.apply(lambda x: pd.Series({...})).reset_index()\<close>. With no row there
  is no group to apply the lambda to: pandas returns a frame that keeps the columns of
  \<^verbatim>\<open>data\<close>, and \<^verbatim>\<open>reset_index\<close> cannot insert \<^verbatim>\<open>group\<close> and \<^verbatim>\<open>date\<close> a second time.
\<close>

definition grouped_apply :: "event list \<Rightarrow> error + frame" where
  "grouped_apply data =
     (if data = [] then Inl ValueError
      else (let ks = group_keys data in
        Inr [(''group'', StrCol (map fst ks)),
             (''date'', DayCol (map snd ks)),
             (''views'', NumCol (map (\<lambda>k. count_type ''view'' (rows_of data k)) ks)),
             (''clicks'', NumCol (map (\<lambda>k. count_type ''click'' (rows_of data k)) ks)),
             (''purchases'', NumCol (map (\<lambda>k. count_type ''purchase'' (rows_of data k)) ks)),
             (''revenue'', NumCol (map (\<lambda>k. sum_revenue (rows_of data k)) ks))]))"

text \<open>The three assignments under \<^verbatim>\<open># Calculate KPIs\<close>.\<close>

definition calculate_kpis :: "frame \<Rightarrow> error + frame" where
  "calculate_kpis k0 =
     bind (getitem k0 ''purchases'') (\<lambda>p.
     bind (getitem k0 ''views'') (\<lambda>v.
     bind (col_div p v) (\<lambda>q.
     bind (col_mul q 100) (\<lambda>cvr.
     (let k1 = setitem k0 ''CVR'' cvr in
     bind (getitem k1 ''revenue'') (\<lambda>r.
     bind (getitem k1 ''purchases'') (\<lambda>p.
     bind (col_div r p) (\<lambda>aov.
     (let k2 = setitem k1 ''AOV'' aov in
     bind (getitem k2 ''clicks'') (\<lambda>c.
     bind (getitem k2 ''views'') (\<lambda>v.
     bind (col_div c v) (\<lambda>q.
     bind (col_mul q 100) (\<lambda>ctr.
     Inr (setitem k2 ''CTR'' ctr))))))))))))))"

text \<open>The table before the two statements under \<^verbatim>\<open># Handle divisions by zero\<close>.\<close>

definition raw_kpi_data :: "event list \<Rightarrow> error + frame" where
  "raw_kpi_data data = bind (grouped_apply data) calculate_kpis"

definition kpi_data :: "event list \<Rightarrow> error + frame" where
  "kpi_data data = bind (raw_kpi_data data) (\<lambda>k. Inr (fillna (replace k) 0))"

subsection \<open>The notebook\<close>

text \<open>
  The cells in order, from whatever state the global generator is in: seed (with 42 in
  the source), simulate, build the KPI table.
\<close>

definition notebook :: "'g bitgen \<Rightarrow> 'g config \<Rightarrow> nat \<Rightarrow> 'g \<Rightarrow> error + (event list \<times> frame)" where
  "notebook G cfg s g =
     bind (simulate G cfg (seed G s g)) (\<lambda>(data, g').
     bind (kpi_data data) (\<lambda>kpi. Inr (data, kpi)))"

subsection \<open>Reading a frame\<close>

definition columns :: "frame \<Rightarrow> string list" where
  "columns df = map fst df"

definition nums :: "frame \<Rightarrow> string \<Rightarrow> fval list" where
  "nums df c = (case map_of df c of Some (NumCol xs) \<Rightarrow> xs | _ \<Rightarrow> [])"

definition strs :: "frame \<Rightarrow> string \<Rightarrow> string list" where
  "strs df c = (case map_of df c of Some (StrCol xs) \<Rightarrow> xs | _ \<Rightarrow> [])"

definition days :: "frame \<Rightarrow> string \<Rightarrow> nat list" where
  "days df c = (case map_of df c of Some (DayCol xs) \<Rightarrow> xs | _ \<Rightarrow> [])"

text \<open>The keys of the rows of a KPI table, and its number of rows.\<close>

definition row_keys :: "frame \<Rightarrow> (string \<times> nat) list" where
  "row_keys df = zip (strs df ''group'') (days df ''date'')"

definition nrows :: "frame \<Rightarrow> nat" where
  "nrows df = length (row_keys df)"

subsection \<open>The rows of one group\<close>

text \<open>\<^verbatim>\<open>df[c] == v\<close> for a string \<open>v\<close>: no number and no date equals a string.\<close>

fun eq_mask :: "column \<Rightarrow> string \<Rightarrow> bool list" where
  "eq_mask (StrCol xs) v = map (\<lambda>x. x = v) xs"
| "eq_mask (DayCol xs) v = map (\<lambda>x. False) xs"
| "eq_mask (NumCol xs) v = map (\<lambda>x. False) xs"

text \<open>\<^verbatim>\<open>df[mask]\<close>: the rows where the mask holds, in every column.\<close>

definition keep :: "bool list \<Rightarrow> 'a list \<Rightarrow> 'a list" where
  "keep msk xs = map fst (filter snd (zip xs msk))"

fun keep_col :: "bool list \<Rightarrow> column \<Rightarrow> column" where
  "keep_col msk (StrCol xs) = StrCol (keep msk xs)"
| "keep_col msk (DayCol xs) = DayCol (keep msk xs)"
| "keep_col msk (NumCol xs) = NumCol (keep msk xs)"

definition loc :: "frame \<Rightarrow> bool list \<Rightarrow> frame" where
  "loc df msk = map (\<lambda>(c, col). (c, keep_col msk col)) df"

text \<open>\<^verbatim>\<open>control_data\<close> and \<^verbatim>\<open>treatment_data\<close>.\<close>

definition control_data :: "frame \<Rightarrow> error + frame" where
  "control_data kpi = bind (getitem kpi ''group'') (\<lambda>c. Inr (loc kpi (eq_mask c ''control'')))"

definition treatment_data :: "frame \<Rightarrow> error + frame" where
  "treatment_data kpi =
     bind (getitem kpi ''group'') (\<lambda>c. Inr (loc kpi (eq_mask c ''treatment'')))"

text \<open>The sum of a float64 column, \<^verbatim>\<open>df[c].sum()\<close>: NaN entries are skipped.\<close>

fun fadd :: "fval \<Rightarrow> fval \<Rightarrow> fval" where
  "fadd (Fin a) (Fin b) = Fin (a + b)"
| "fadd (Fin a) y = y"
| "fadd x (Fin b) = x"
| "fadd PInf PInf = PInf"
| "fadd NInf NInf = NInf"
| "fadd x y = NaN"

definition series_sum :: "fval list \<Rightarrow> fval" where
  "series_sum xs = foldl fadd (Fin 0) (filter (\<lambda>x. x \<noteq> NaN) xs)"

text \<open>
  An entry of the \<^verbatim>\<open>Non-Purchases\<close> column of the contingency table, for the frame of
  one group: \<^verbatim>\<open>g['views'].sum() - g['purchases'].sum()\<close>.
\<close>

fun fneg :: "fval \<Rightarrow> fval" where
  "fneg (Fin a) = Fin (- a)"
| "fneg PInf = NInf"
| "fneg NInf = PInf"
| "fneg NaN = NaN"

definition fsub :: "fval \<Rightarrow> fval \<Rightarrow> fval" where
  "fsub x y = fadd x (fneg y)"

definition non_purchases :: "frame \<Rightarrow> fval" where
  "non_purchases g = fsub (series_sum (nums g ''views'')) (series_sum (nums g ''purchases''))"

subsection \<open>A small generator for the examples\<close>

text \<open>
  A counter: the state is a natural number, a double is its last decimal digit over
  ten, an integer is the state modulo the bound.
\<close>

definition counter :: "nat bitgen" where
  "counter =
     \<lparr> init = (\<lambda>s. s),
       next_double = (\<lambda>g. (real (g mod 10) / 10, g + 3)),
       bounded = (\<lambda>n g. (g mod n, g + 1)) \<rparr>"

subsection \<open>The raw ratios of a row\<close>

text \<open>What the three assignments compute for the group with key \<open>k\<close>.\<close>

definition cvr_of :: "event list \<Rightarrow> string \<times> nat \<Rightarrow> fval" where
  "cvr_of data k =
     fmul (fdiv (count_type ''purchase'' (rows_of data k)) (count_type ''view'' (rows_of data k)))
       (Fin 100)"

definition aov_of :: "event list \<Rightarrow> string \<times> nat \<Rightarrow> fval" where
  "aov_of data k = fdiv (sum_revenue (rows_of data k)) (count_type ''purchase'' (rows_of data k))"

definition ctr_of :: "event list \<Rightarrow> string \<times> nat \<Rightarrow> fval" where
  "ctr_of data k =
     fmul (fdiv (count_type ''click'' (rows_of data k)) (count_type ''view'' (rows_of data k)))
       (Fin 100)"

subsection \<open>Example inputs\<close>

text \<open>An event of user 1000 in the control group on the first day.\<close>

definition ev :: "string \<Rightarrow> real \<Rightarrow> event" where
  "ev t r =
     \<lparr> user_id = 1000, date = 0, event_type = t, group_name = ''control'', revenue = r \<rparr>"

text \<open>
  The reference parameters on a small scale and with larger probabilities: two days,
  ten users, four events for each date and group, a click with probability 0.9 and a
  purchase with probability 0.5.
\<close>

definition mixed :: "nat config" where
  "mixed = (reference counter)
     \<lparr> num_days := 2, num_users := 10, events_per_day := (\<lambda>g. Inr (4, g)),
       p_click_control := 9 / 10, p_purchase_control := 1 / 2,
       p_click_treatment := 9 / 10, p_purchase_treatment := 1 / 2 \<rparr>"

text \<open>
  The end-to-end scenario: one day, ten users, the control group alone, both
  probabilities 1, five events.
\<close>

definition scenario :: "'g config" where
  "scenario =
     \<lparr> num_days = 1,
       num_users = 10,
       events_per_day = (\<lambda>g. Inr (5, g)),
       group_list = [''control''],
       revenue_global = True,
       r_revenue_global = (20, 200),
       p_click_control = 1,
       p_purchase_control = 1,
       r_revenue_control = (200, 300),
       p_click_treatment = 25 / 100,
       p_purchase_treatment = 10 / 100,
       r_revenue_treatment = (20, 100) \<rparr>"

text \<open>A row of the Event table, field by field.\<close>

definition row :: "nat \<Rightarrow> nat \<Rightarrow> string \<Rightarrow> string \<Rightarrow> real \<Rightarrow> event" where
  "row uid d t grp r =
     \<lparr> user_id = uid, date = d, event_type = t, group_name = grp, revenue = r \<rparr>"

text \<open>The tables of \<open>mixed\<close> for the counter seeded with 42.\<close>

definition mixed_data :: "event list" where
  "mixed_data =
     [row 1002 0 ''click'' ''control'' 0,
      row 1003 0 ''view'' ''control'' 0,
      row 1004 0 ''purchase'' ''control'' 20,
      row 1005 0 ''click'' ''control'' 0,
      row 1003 0 ''click'' ''treatment'' 0,
      row 1004 0 ''purchase'' ''treatment'' 38,
      row 1005 0 ''click'' ''treatment'' 0,
      row 1006 0 ''click'' ''treatment'' 0,
      row 1004 1 ''purchase'' ''control'' 56,
      row 1005 1 ''purchase'' ''control'' 110,
      row 1006 1 ''click'' ''control'' 0,
      row 1007 1 ''click'' ''control'' 0,
      row 1008 1 ''purchase'' ''treatment'' 128,
      row 1009 1 ''click'' ''treatment'' 0,
      row 1000 1 ''purchase'' ''treatment'' 182,
      row 1001 1 ''purchase'' ''treatment'' 56]"

definition mixed_kpi :: frame where
  "mixed_kpi =
     [(''group'', StrCol [''control'', ''control'', ''treatment'', ''treatment'']),
      (''date'', DayCol [0, 1, 0, 1]),
      (''views'', NumCol [Fin 1, Fin 0, Fin 0, Fin 0]),
      (''clicks'', NumCol [Fin 2, Fin 2, Fin 3, Fin 1]),
      (''purchases'', NumCol [Fin 1, Fin 2, Fin 1, Fin 3]),
      (''revenue'', NumCol [Fin 20, Fin 166, Fin 38, Fin 366]),
      (''CVR'', NumCol [Fin 100, Fin 0, Fin 0, Fin 0]),
      (''AOV'', NumCol [Fin 20, Fin 83, Fin 38, Fin 122]),
      (''CTR'', NumCol [Fin 200, Fin 0, Fin 0, Fin 0])]"

text \<open>The tables of \<open>scenario\<close> for the counter seeded with 42.\<close>

definition scenario_data :: "event list" where
  "scenario_data =
     [row 1002 0 ''purchase'' ''control'' 146,
      row 1003 0 ''purchase'' ''control'' 20,
      row 1004 0 ''purchase'' ''control'' 74,
      row 1005 0 ''purchase'' ''control'' 128,
      row 1006 0 ''purchase'' ''control'' 182]"

definition scenario_kpi :: frame where
  "scenario_kpi =
     [(''group'', StrCol [''control'']),
      (''date'', DayCol [0]),
      (''views'', NumCol [Fin 0]),
      (''clicks'', NumCol [Fin 0]),
      (''purchases'', NumCol [Fin 5]),
      (''revenue'', NumCol [Fin 550]),
      (''CVR'', NumCol [Fin 0]),
      (''AOV'', NumCol [Fin 110]),
      (''CTR'', NumCol [Fin 0])]"

section \<open>Properties\<close>

subsection \<open>The examples, evaluated\<close>

lemma counter_ok: "bitgen_ok counter"
  by (simp add: bitgen_ok_def counter_def)

lemma counter_init: "init counter s = s"
  by (simp add: counter_def)

lemma mixed_simulate: "simulate counter mixed 42 = Inr (mixed_data, 175)"
  by code_simp

lemma mixed_kpi_data: "kpi_data mixed_data = Inr mixed_kpi"
  by code_simp

lemma mixed_notebook: "notebook counter mixed 42 g = Inr (mixed_data, mixed_kpi)"
  by (simp add: notebook_def seed_def counter_init mixed_simulate mixed_kpi_data bind_def)

lemma scenario_simulate: "simulate counter scenario 42 = Inr (scenario_data, 92)"
  by code_simp

lemma scenario_kpi_data: "kpi_data scenario_data = Inr scenario_kpi"
  by code_simp

lemma scenario_notebook: "notebook counter scenario 42 g = Inr (scenario_data, scenario_kpi)"
  by (simp add: notebook_def seed_def counter_init scenario_simulate scenario_kpi_data bind_def)


subsection \<open>The KPI table, column by column\<close>

lemma zip_map_same: "map h (zip (map f ks) (map g ks)) = map (\<lambda>k. h (f k, g k)) ks"
  by (induction ks) simp_all

lemma raw_kpi_data_frame:
  assumes "data \<noteq> []"
  shows "raw_kpi_data data =
    Inr [(''group'', StrCol (map fst (group_keys data))),
         (''date'', DayCol (map snd (group_keys data))),
         (''views'', NumCol (map (\<lambda>k. count_type ''view'' (rows_of data k)) (group_keys data))),
         (''clicks'', NumCol (map (\<lambda>k. count_type ''click'' (rows_of data k)) (group_keys data))),
         (''purchases'',
            NumCol (map (\<lambda>k. count_type ''purchase'' (rows_of data k)) (group_keys data))),
         (''revenue'', NumCol (map (\<lambda>k. sum_revenue (rows_of data k)) (group_keys data))),
         (''CVR'', NumCol (map (cvr_of data) (group_keys data))),
         (''AOV'', NumCol (map (aov_of data) (group_keys data))),
         (''CTR'', NumCol (map (ctr_of data) (group_keys data)))]"
  using assms
  by (simp add: raw_kpi_data_def grouped_apply_def calculate_kpis_def bind_def getitem_def
      setitem_def Let_def zip_map_same cvr_of_def aov_of_def ctr_of_def)

lemma kpi_data_frame:
  assumes "data \<noteq> []"
  shows "kpi_data data =
    Inr [(''group'', StrCol (map fst (group_keys data))),
         (''date'', DayCol (map snd (group_keys data))),
         (''views'', NumCol (map (\<lambda>k. count_type ''view'' (rows_of data k)) (group_keys data))),
         (''clicks'', NumCol (map (\<lambda>k. count_type ''click'' (rows_of data k)) (group_keys data))),
         (''purchases'',
            NumCol (map (\<lambda>k. count_type ''purchase'' (rows_of data k)) (group_keys data))),
         (''revenue'', NumCol (map (\<lambda>k. sum_revenue (rows_of data k)) (group_keys data))),
         (''CVR'', NumCol (map (\<lambda>k. fill 0 (replace_inf (cvr_of data k))) (group_keys data))),
         (''AOV'', NumCol (map (\<lambda>k. fill 0 (replace_inf (aov_of data k))) (group_keys data))),
         (''CTR'', NumCol (map (\<lambda>k. fill 0 (replace_inf (ctr_of data k))) (group_keys data)))]"
  using assms
  by (simp add: kpi_data_def raw_kpi_data_frame bind_def replace_def fillna_def o_def
       count_type_def sum_revenue_def fill_def replace_inf_def)

lemma kpi_data_nonempty: "kpi_data data = Inr kpi \<Longrightarrow> data \<noteq> []"
  by (auto simp: kpi_data_def raw_kpi_data_def grouped_apply_def bind_def)

lemma kpi_columns:
  assumes "kpi_data data = Inr kpi"
  shows "strs kpi ''group'' = map fst (group_keys data)"
    and "days kpi ''date'' = map snd (group_keys data)"
    and "nums kpi ''views'' = map (\<lambda>k. count_type ''view'' (rows_of data k)) (group_keys data)"
    and "nums kpi ''clicks'' = map (\<lambda>k. count_type ''click'' (rows_of data k)) (group_keys data)"
    and "nums kpi ''purchases'' =
           map (\<lambda>k. count_type ''purchase'' (rows_of data k)) (group_keys data)"
    and "nums kpi ''revenue'' = map (\<lambda>k. sum_revenue (rows_of data k)) (group_keys data)"
    and "nums kpi ''CVR'' = map (\<lambda>k. fill 0 (replace_inf (cvr_of data k))) (group_keys data)"
    and "nums kpi ''AOV'' = map (\<lambda>k. fill 0 (replace_inf (aov_of data k))) (group_keys data)"
    and "nums kpi ''CTR'' = map (\<lambda>k. fill 0 (replace_inf (ctr_of data k))) (group_keys data)"
    and "columns kpi = [''group'', ''date'', ''views'', ''clicks'', ''purchases'', ''revenue'',
                        ''CVR'', ''AOV'', ''CTR'']"
  using assms kpi_data_frame [OF kpi_data_nonempty [OF assms]]
  by (auto simp: nums_def strs_def days_def columns_def)

lemma raw_columns:
  assumes "raw_kpi_data data = Inr raw"
  shows "nums raw ''CVR'' = map (cvr_of data) (group_keys data)"
    and "nums raw ''AOV'' = map (aov_of data) (group_keys data)"
    and "nums raw ''CTR'' = map (ctr_of data) (group_keys data)"
proof -
  have "data \<noteq> []"
    using assms by (auto simp: raw_kpi_data_def grouped_apply_def bind_def)
  from raw_kpi_data_frame [OF this] assms
  show "nums raw ''CVR'' = map (cvr_of data) (group_keys data)"
    and "nums raw ''AOV'' = map (aov_of data) (group_keys data)"
    and "nums raw ''CTR'' = map (ctr_of data) (group_keys data)"
    by (auto simp: nums_def)
qed

lemma kpi_row_keys: "kpi_data data = Inr kpi \<Longrightarrow> row_keys kpi = group_keys data"
  by (simp add: row_keys_def kpi_columns zip_map_fst_snd)

lemma kpi_nrows: "kpi_data data = Inr kpi \<Longrightarrow> nrows kpi = length (group_keys data)"
  by (simp add: nrows_def kpi_row_keys)

subsection \<open>Division by zero\<close>

lemma ratio_zero_den:
  "0 \<le> a \<Longrightarrow> fmul (fdiv (Fin a) (Fin 0)) (Fin 100) \<in> {PInf, NaN}"
  "fdiv (Fin a) (Fin 0) \<in> {PInf, NInf, NaN}"
  by auto

text \<open>
  Claim C1. In a row of the KPI table whose \<open>views\<close> is zero, CVR and CTR are 0, and in
  a row whose \<open>purchases\<close> is zero, AOV is 0. The final table is the raw table after
  \<open>replace\<close> and \<open>fillna\<close>; in such a row the raw ratio is an infinity or NaN (the
  quotient of a count by zero is never minus infinity, the quotient of the revenue sum
  by zero may be), and the substitution turns each of them into 0.
\<close>

theorem zero_denominator_gives_zero:
  assumes raw: "raw_kpi_data data = Inr raw"
    and kpi: "kpi_data data = Inr kpi"
    and i: "i < nrows kpi"
  shows "kpi = fillna (replace raw) 0 \<and>
    (nums kpi ''views'' ! i = Fin 0 \<longrightarrow>
       nums raw ''CVR'' ! i \<in> {PInf, NaN} \<and> nums kpi ''CVR'' ! i = Fin 0 \<and>
       nums raw ''CTR'' ! i \<in> {PInf, NaN} \<and> nums kpi ''CTR'' ! i = Fin 0) \<and>
    (nums kpi ''purchases'' ! i = Fin 0 \<longrightarrow>
       nums raw ''AOV'' ! i \<in> {PInf, NInf, NaN} \<and> nums kpi ''AOV'' ! i = Fin 0)"
proof -
  let ?k = "group_keys data ! i"
  have len: "i < length (group_keys data)"
    using i kpi by (simp add: kpi_nrows)
  have after: "kpi = fillna (replace raw) 0"
    using raw kpi by (simp add: kpi_data_def bind_def)
  have views: "nums kpi ''views'' ! i = Fin 0 \<Longrightarrow>
       nums raw ''CVR'' ! i \<in> {PInf, NaN} \<and> nums kpi ''CVR'' ! i = Fin 0 \<and>
       nums raw ''CTR'' ! i \<in> {PInf, NaN} \<and> nums kpi ''CTR'' ! i = Fin 0"
  proof -
    assume "nums kpi ''views'' ! i = Fin 0"
    then have v: "count_type ''view'' (rows_of data ?k) = Fin 0"
      using len by (simp add: kpi_columns [OF kpi])
    have "cvr_of data ?k \<in> {PInf, NaN}" "ctr_of data ?k \<in> {PInf, NaN}"
      using v ratio_zero_den(1) by (simp_all add: cvr_of_def ctr_of_def count_type_def)
    then show ?thesis
      using len by (auto simp: kpi_columns [OF kpi] raw_columns [OF raw] fill_def replace_inf_def)
  qed
  have purchases: "nums kpi ''purchases'' ! i = Fin 0 \<Longrightarrow>
       nums raw ''AOV'' ! i \<in> {PInf, NInf, NaN} \<and> nums kpi ''AOV'' ! i = Fin 0"
  proof -
    assume "nums kpi ''purchases'' ! i = Fin 0"
    then have p: "count_type ''purchase'' (rows_of data ?k) = Fin 0"
      using len by (simp add: kpi_columns [OF kpi])
    have "aov_of data ?k \<in> {PInf, NInf, NaN}"
      using p ratio_zero_den(2) by (simp add: aov_of_def sum_revenue_def)
    then show ?thesis
      using len by (auto simp: kpi_columns [OF kpi] raw_columns [OF raw] fill_def replace_inf_def)
  qed
  from after views purchases show ?thesis by blast
qed

text \<open>
  Two clicks and nothing else on one day: no view and no purchase, so the three raw
  ratios are \<open>0/0\<close>, \<open>0/0\<close> and \<open>2/0\<close>, and the three KPIs are 0.
\<close>

theorem zero_denominator_gives_zero_witness:
  "nums (projr (kpi_data [ev ''click'' 0, ev ''click'' 0])) ''views'' ! 0 = Fin 0 \<and>
   nums (projr (kpi_data [ev ''click'' 0, ev ''click'' 0])) ''purchases'' ! 0 = Fin 0 \<and>
   nums (projr (raw_kpi_data [ev ''click'' 0, ev ''click'' 0])) ''CVR'' ! 0 = NaN \<and>
   nums (projr (raw_kpi_data [ev ''click'' 0, ev ''click'' 0])) ''CTR'' ! 0 = PInf \<and>
   nums (projr (raw_kpi_data [ev ''click'' 0, ev ''click'' 0])) ''AOV'' ! 0 = NaN \<and>
   nums (projr (kpi_data [ev ''click'' 0, ev ''click'' 0])) ''CVR'' ! 0 = Fin 0 \<and>
   nums (projr (kpi_data [ev ''click'' 0, ev ''click'' 0])) ''CTR'' ! 0 = Fin 0 \<and>
   nums (projr (kpi_data [ev ''click'' 0, ev ''click'' 0])) ''AOV'' ! 0 = Fin 0"
proof -
  let ?data = "[ev ''click'' 0, ev ''click'' 0]"
  let ?raw = "[(''group'', StrCol [''control'']), (''date'', DayCol [0]),
      (''views'', NumCol [Fin 0]), (''clicks'', NumCol [Fin 2]),
      (''purchases'', NumCol [Fin 0]), (''revenue'', NumCol [Fin 0]),
      (''CVR'', NumCol [NaN]), (''AOV'', NumCol [NaN]), (''CTR'', NumCol [PInf])]"
  let ?kpi = "[(''group'', StrCol [''control'']), (''date'', DayCol [0]),
      (''views'', NumCol [Fin 0]), (''clicks'', NumCol [Fin 2]),
      (''purchases'', NumCol [Fin 0]), (''revenue'', NumCol [Fin 0]),
      (''CVR'', NumCol [Fin 0]), (''AOV'', NumCol [Fin 0]), (''CTR'', NumCol [Fin 0])]"
  have raw: "raw_kpi_data ?data = Inr ?raw" by code_simp
  have kpi: "kpi_data ?data = Inr ?kpi" by code_simp
  have i: "0 < nrows ?kpi" by code_simp
  from zero_denominator_gives_zero [OF raw kpi i, THEN conjunct2] show ?thesis
    by (simp add: raw kpi nums_def)
qed

subsection \<open>The draws of NumPy\<close>

lemma rand_length: "length (fst (rand G n g)) = n"
proof (induction n arbitrary: g)
  case 0
  then show ?case by simp
next
  case (Suc n)
  obtain v g1 where v: "next_double G g = (v, g1)" by (cases "next_double G g")
  obtain vs g2 where vs: "rand G n g1 = (vs, g2)" by (cases "rand G n g1")
  from Suc [of g1] v vs show ?case by simp
qed

lemma integers_length: "length (fst (integers G m n g)) = n"
proof (induction n arbitrary: g)
  case 0
  then show ?case by simp
next
  case (Suc n)
  obtain k g1 where k: "bounded G m g = (k, g1)" by (cases "bounded G m g")
  obtain ks g2 where ks: "integers G m n g1 = (ks, g2)" by (cases "integers G m n g1")
  from Suc [of g1] k ks show ?case by simp
qed

lemma rand_range:
  "bitgen_ok G \<Longrightarrow> u \<in> set (fst (rand G n g)) \<Longrightarrow> 0 \<le> u \<and> u < 1"
proof (induction n arbitrary: g)
  case 0
  then show ?case by simp
next
  case (Suc n)
  obtain v g1 where v: "next_double G g = (v, g1)" by (cases "next_double G g")
  obtain vs g2 where vs: "rand G n g1 = (vs, g2)" by (cases "rand G n g1")
  from Suc.prems(2) v vs have "u = v \<or> u \<in> set (fst (rand G n g1))" by auto
  moreover have "0 \<le> v \<and> v < 1"
    using Suc.prems(1) v unfolding bitgen_ok_def by (metis fst_conv)
  ultimately show ?case using Suc.IH [OF Suc.prems(1)] by blast
qed

lemma uniform_length: "length (fst (uniform G lo hi n g)) = n"
  using rand_length [of G n g] by (cases "rand G n g") (simp add: uniform_def)

lemma uniform_range:
  assumes "bitgen_ok G" and "lo \<le> hi" and "v \<in> set (fst (uniform G lo hi n g))"
  shows "lo \<le> v \<and> (lo < hi \<longrightarrow> v < hi)"
proof -
  from assms(3) obtain u where u: "u \<in> set (fst (rand G n g))" and v: "v = lo + (hi - lo) * u"
    by (auto simp: uniform_def split: prod.splits)
  from rand_range [OF assms(1) u] have u01: "0 \<le> u" "u < 1" by simp_all
  have low: "0 \<le> (hi - lo) * u" using assms(2) u01 by simp
  have high: "(hi - lo) * u < hi - lo" if "lo < hi"
    using u01 that by simp
  show ?thesis
  proof (intro conjI impI)
    show "lo \<le> v" using low v by simp
    show "v < hi" if "lo < hi" using high [OF that] v by simp
  qed
qed

lemma set_masked_length: "length (set_masked arr msk v) = min (length arr) (length msk)"
  by (simp add: set_masked_def)

lemma set_masked_nth:
  "i < length arr \<Longrightarrow> i < length msk \<Longrightarrow>
   set_masked arr msk v ! i = (if msk ! i then v else arr ! i)"
  by (simp add: set_masked_def)

lemma purchase_mask_length:
  "length u_click = n \<Longrightarrow> length u_purchase = n \<Longrightarrow>
   length (purchase_mask pc pp u_click u_purchase) = n"
  by (simp add: purchase_mask_def click_mask_def)

lemma purchase_mask_nth:
  "i < length u_click \<Longrightarrow> i < length u_purchase \<Longrightarrow>
   purchase_mask pc pp u_click u_purchase ! i = (u_click ! i < pc \<and> u_purchase ! i < pp)"
  by (simp add: purchase_mask_def click_mask_def)

lemma event_types_length:
  "length u_click = n \<Longrightarrow> length u_purchase = n \<Longrightarrow>
   length (event_types n pc pp u_click u_purchase) = n"
  by (simp add: event_types_def Let_def set_masked_length purchase_mask_length click_mask_def)

lemma event_types_nth:
  assumes "length u_click = n" and "length u_purchase = n" and "i < n"
  shows "event_types n pc pp u_click u_purchase ! i =
     (if u_click ! i < pc \<and> u_purchase ! i < pp then ''purchase''
      else if u_click ! i < pc then ''click'' else ''view'')"
  using assms
  by (simp add: event_types_def Let_def set_masked_nth set_masked_length purchase_mask_length
      purchase_mask_nth click_mask_def U10_def)

lemma put_masked_length: "length (put_masked xs ms vs) = length xs"
  by (induction xs ms vs rule: put_masked.induct) (auto split: list.splits)

lemma put_masked_nth:
  "length ms = length xs \<Longrightarrow> length vs = length (filter id ms) \<Longrightarrow> i < length xs \<Longrightarrow>
   (if ms ! i then put_masked xs ms vs ! i \<in> set vs else put_masked xs ms vs ! i = xs ! i)"
proof (induction xs ms vs arbitrary: i rule: put_masked.induct)
  case (1 x xs m ms vs)
  show ?case
  proof (cases i)
    case 0
    then show ?thesis using "1.prems" by (cases vs) auto
  next
    case (Suc j)
    show ?thesis
    proof (cases m)
      case True
      then obtain v vs' where vs: "vs = v # vs'" using "1.prems" by (cases vs) auto
      have "if ms ! j then put_masked xs ms vs' ! j \<in> set vs' else put_masked xs ms vs' ! j = xs ! j"
        using "1.IH"(2) [OF True vs, of j] "1.prems" True vs Suc by simp
      then show ?thesis using True vs Suc by (auto split: if_splits)
    next
      case False
      have "if ms ! j then put_masked xs ms vs ! j \<in> set vs else put_masked xs ms vs ! j = xs ! j"
        using "1.IH"(3) [OF False, of j] "1.prems" False Suc by simp
      then show ?thesis using False Suc by (auto split: if_splits)
    qed
  qed
qed simp_all

subsection \<open>A day frame\<close>

lemma choice_length: "choice G a n g = Inr (uids, g') \<Longrightarrow> length uids = n"
  using integers_length [of G "length a" n g]
  by (cases "integers G (length a) n g") (auto simp: choice_def split: if_splits)

lemma day_data_Inr:
  assumes "day_data G cfg d grp g0 = Inr (rows, g5)"
  obtains n g1 uids g2 u_click g3 u_purchase g4 drawn where
    "events_per_day cfg g0 = Inr (n, g1)"
    "choice G (users cfg) n g1 = Inr (uids, g2)"
    "rand G n g2 = (u_click, g3)"
    "rand G n g3 = (u_purchase, g4)"
    "uniform G (fst (r_revenue cfg grp)) (snd (r_revenue cfg grp))
       (length (filter id (purchase_mask (p_click cfg grp) (p_purchase cfg grp) u_click u_purchase)))
       g4 = (drawn, g5)"
    "rows = map (\<lambda>(uid, t, r).
               \<lparr> user_id = uid, date = d, event_type = t, group_name = grp, revenue = r \<rparr>)
             (zip uids
               (zip (event_types n (p_click cfg grp) (p_purchase cfg grp) u_click u_purchase)
                    (put_masked (replicate n 0)
                       (purchase_mask (p_click cfg grp) (p_purchase cfg grp) u_click u_purchase)
                       drawn)))"
  using assms
  by (auto simp: day_data_def bind_def Let_def split: sum.splits prod.splits)

lemma day_rows_nth:
  assumes "length uids = n" and "length types = n" and "length revs = n" and "i < n"
  shows "map (\<lambda>(uid, t, r).
            \<lparr> user_id = uid, date = d, event_type = t, group_name = grp, revenue = r \<rparr>)
          (zip uids (zip types revs)) ! i =
         \<lparr> user_id = uids ! i, date = d, event_type = types ! i, group_name = grp,
           revenue = revs ! i \<rparr>"
  using assms by simp

text \<open>What a row of a day frame is, in terms of the draws.\<close>

lemma day_data_row:
  assumes "day_data G cfg d grp g0 = Inr (rows, g5)"
  obtains n g1 uids g2 u_click g3 u_purchase g4 drawn where
    "events_per_day cfg g0 = Inr (n, g1)"
    "choice G (users cfg) n g1 = Inr (uids, g2)"
    "rand G n g2 = (u_click, g3)"
    "rand G n g3 = (u_purchase, g4)"
    "uniform G (fst (r_revenue cfg grp)) (snd (r_revenue cfg grp))
       (length (filter id (purchase_mask (p_click cfg grp) (p_purchase cfg grp) u_click u_purchase)))
       g4 = (drawn, g5)"
    "length rows = n"
    "\<forall>i<n. rows ! i =
       \<lparr> user_id = uids ! i, date = d,
         event_type = event_types n (p_click cfg grp) (p_purchase cfg grp) u_click u_purchase ! i,
         group_name = grp,
         revenue = put_masked (replicate n 0)
                     (purchase_mask (p_click cfg grp) (p_purchase cfg grp) u_click u_purchase)
                     drawn ! i \<rparr>"
proof -
  from assms obtain n g1 uids g2 u_click g3 u_purchase g4 drawn where
    a: "events_per_day cfg g0 = Inr (n, g1)"
    and b: "choice G (users cfg) n g1 = Inr (uids, g2)"
    and c: "rand G n g2 = (u_click, g3)"
    and e: "rand G n g3 = (u_purchase, g4)"
    and f: "uniform G (fst (r_revenue cfg grp)) (snd (r_revenue cfg grp))
       (length (filter id (purchase_mask (p_click cfg grp) (p_purchase cfg grp) u_click u_purchase)))
       g4 = (drawn, g5)"
    and r: "rows = map (\<lambda>(uid, t, r).
               \<lparr> user_id = uid, date = d, event_type = t, group_name = grp, revenue = r \<rparr>)
             (zip uids
               (zip (event_types n (p_click cfg grp) (p_purchase cfg grp) u_click u_purchase)
                    (put_masked (replicate n 0)
                       (purchase_mask (p_click cfg grp) (p_purchase cfg grp) u_click u_purchase)
                       drawn)))"
    by (rule day_data_Inr)
  have lu: "length uids = n" using b by (rule choice_length)
  have lc: "length u_click = n" using rand_length [of G n g2] c by simp
  have lp: "length u_purchase = n" using rand_length [of G n g3] e by simp
  have lt: "length (event_types n (p_click cfg grp) (p_purchase cfg grp) u_click u_purchase) = n"
    using lc lp by (rule event_types_length)
  have lr: "length (put_masked (replicate n 0)
                       (purchase_mask (p_click cfg grp) (p_purchase cfg grp) u_click u_purchase)
                       drawn) = n"
    by (simp add: put_masked_length)
  have len: "length rows = n" using r lu lt lr by simp
  have nth: "rows ! i =
       \<lparr> user_id = uids ! i, date = d,
         event_type = event_types n (p_click cfg grp) (p_purchase cfg grp) u_click u_purchase ! i,
         group_name = grp,
         revenue = put_masked (replicate n 0)
                     (purchase_mask (p_click cfg grp) (p_purchase cfg grp) u_click u_purchase)
                     drawn ! i \<rparr>" if "i < n" for i
    unfolding r using lu lt lr that by (rule day_rows_nth)
  from nth have "\<forall>i<n. rows ! i =
       \<lparr> user_id = uids ! i, date = d,
         event_type = event_types n (p_click cfg grp) (p_purchase cfg grp) u_click u_purchase ! i,
         group_name = grp,
         revenue = put_masked (replicate n 0)
                     (purchase_mask (p_click cfg grp) (p_purchase cfg grp) u_click u_purchase)
                     drawn ! i \<rparr>"
    by blast
  from that [OF a b c e f len this] show thesis .
qed

lemma day_data_event:
  assumes "day_data G cfg d grp g0 = Inr (rows, g5)" and "e \<in> set rows"
  shows "date e = d \<and> group_name e = grp \<and> event_type e \<in> {''view'', ''click'', ''purchase''}"
proof -
  from assms(1) obtain n g1 uids g2 u_click g3 u_purchase g4 drawn where
    "events_per_day cfg g0 = Inr (n, g1)"
    and "choice G (users cfg) n g1 = Inr (uids, g2)"
    and c: "rand G n g2 = (u_click, g3)"
    and p: "rand G n g3 = (u_purchase, g4)"
    and "uniform G (fst (r_revenue cfg grp)) (snd (r_revenue cfg grp))
       (length (filter id (purchase_mask (p_click cfg grp) (p_purchase cfg grp) u_click u_purchase)))
       g4 = (drawn, g5)"
    and len: "length rows = n"
    and nth': "\<forall>i<n. rows ! i =
       \<lparr> user_id = uids ! i, date = d,
         event_type = event_types n (p_click cfg grp) (p_purchase cfg grp) u_click u_purchase ! i,
         group_name = grp,
         revenue = put_masked (replicate n 0)
                     (purchase_mask (p_click cfg grp) (p_purchase cfg grp) u_click u_purchase)
                     drawn ! i \<rparr>"
    by (rule day_data_row)
  note nth = nth' [rule_format]
  from assms(2) len obtain i where i: "i < n" and e: "e = rows ! i"
    by (auto simp: in_set_conv_nth)
  have lc: "length u_click = n" using rand_length [of G n g2] c by simp
  have lp: "length u_purchase = n" using rand_length [of G n g3] p by simp
  show ?thesis
    unfolding e nth [OF i] by (simp add: event_types_nth [OF lc lp i])
qed

lemma day_data_revenue:
  assumes ok: "bitgen_ok G"
    and range: "fst (r_revenue cfg grp) \<le> snd (r_revenue cfg grp)"
    and day: "day_data G cfg d grp g0 = Inr (rows, g5)"
    and mem: "e \<in> set rows"
  shows "(event_type e = ''purchase'' \<longrightarrow>
            fst (r_revenue cfg grp) \<le> revenue e \<and>
            (fst (r_revenue cfg grp) < snd (r_revenue cfg grp) \<longrightarrow>
               revenue e < snd (r_revenue cfg grp))) \<and>
         (event_type e \<noteq> ''purchase'' \<longrightarrow> revenue e = 0)"
proof -
  let ?pc = "p_click cfg grp" and ?pp = "p_purchase cfg grp"
  let ?lo = "fst (r_revenue cfg grp)" and ?hi = "snd (r_revenue cfg grp)"
  from day obtain n g1 uids g2 u_click g3 u_purchase g4 drawn where
    "events_per_day cfg g0 = Inr (n, g1)"
    and "choice G (users cfg) n g1 = Inr (uids, g2)"
    and c: "rand G n g2 = (u_click, g3)"
    and p: "rand G n g3 = (u_purchase, g4)"
    and u: "uniform G ?lo ?hi (length (filter id (purchase_mask ?pc ?pp u_click u_purchase))) g4
              = (drawn, g5)"
    and len: "length rows = n"
    and nth': "\<forall>i<n. rows ! i =
       \<lparr> user_id = uids ! i, date = d,
         event_type = event_types n ?pc ?pp u_click u_purchase ! i,
         group_name = grp,
         revenue = put_masked (replicate n 0) (purchase_mask ?pc ?pp u_click u_purchase) drawn ! i \<rparr>"
    by (rule day_data_row)
  note nth = nth' [rule_format]
  let ?pm = "purchase_mask ?pc ?pp u_click u_purchase"
  from mem len obtain i where i: "i < n" and e: "e = rows ! i"
    by (auto simp: in_set_conv_nth)
  have lc: "length u_click = n" using rand_length [of G n g2] c by simp
  have lp: "length u_purchase = n" using rand_length [of G n g3] p by simp
  have lm: "length ?pm = length (replicate n (0::real))"
    using lc lp by (simp add: purchase_mask_length)
  have ld: "length drawn = length (filter id ?pm)"
    using uniform_length [of G ?lo ?hi "length (filter id ?pm)" g4] u by simp
  have type: "event_type e = ''purchase'' \<longleftrightarrow> ?pm ! i"
    unfolding e nth [OF i] using lc lp i
    by (simp add: event_types_nth [OF lc lp i] purchase_mask_nth)
  have rev: "revenue e = put_masked (replicate n 0) ?pm drawn ! i"
    unfolding e nth [OF i] by simp
  have put: "if ?pm ! i then put_masked (replicate n 0) ?pm drawn ! i \<in> set drawn
             else put_masked (replicate n 0) ?pm drawn ! i = replicate n 0 ! i"
    using lm ld i by (intro put_masked_nth) simp_all
  have drawn: "?lo \<le> v \<and> (?lo < ?hi \<longrightarrow> v < ?hi)" if "v \<in> set drawn" for v
    using uniform_range [OF ok range, of v "length (filter id ?pm)" g4] u that by simp
  show ?thesis
  proof (cases "?pm ! i")
    case True
    then have "revenue e \<in> set drawn" using put rev by simp
    from drawn [OF this] True type show ?thesis by simp
  next
    case False
    then have "revenue e = 0" using put rev i by simp
    then show ?thesis using False type by simp
  qed
qed

text \<open>The frames that the loops append, one for each pair of a date and a group.\<close>

lemma group_loop_frames:
  "group_loop G cfg d grps data_list g = Inr (data_list', g') \<Longrightarrow>
   \<exists>new. data_list' = data_list @ new \<and>
     list_all2 (\<lambda>grp day. \<exists>ga gb. day_data G cfg d grp ga = Inr (day, gb)) grps new"
proof (induction grps arbitrary: data_list g)
  case Nil
  then show ?case by simp
next
  case (Cons grp grps)
  from Cons.prems obtain day g1 where
    day: "day_data G cfg d grp g = Inr (day, g1)"
    and rest: "group_loop G cfg d grps (data_list @ [day]) g1 = Inr (data_list', g')"
    by (auto simp: bind_def split: sum.splits)
  from Cons.IH [OF rest] obtain new where
    new: "data_list' = (data_list @ [day]) @ new"
    and all: "list_all2 (\<lambda>grp day. \<exists>ga gb. day_data G cfg d grp ga = Inr (day, gb)) grps new"
    by blast
  have "list_all2 (\<lambda>grp day. \<exists>ga gb. day_data G cfg d grp ga = Inr (day, gb))
          (grp # grps) (day # new)"
    using day all by auto
  with new show ?case by (intro exI [of _ "day # new"]) simp
qed

lemma date_loop_frames:
  "date_loop G cfg ds data_list g = Inr (data_list', g') \<Longrightarrow>
   \<exists>new. data_list' = data_list @ concat new \<and>
     list_all2 (\<lambda>d days.
        list_all2 (\<lambda>grp day. \<exists>ga gb. day_data G cfg d grp ga = Inr (day, gb))
          (group_list cfg) days) ds new"
proof (induction ds arbitrary: data_list g)
  case Nil
  then show ?case by simp
next
  case (Cons d ds)
  from Cons.prems obtain dl1 g1 where
    inner: "group_loop G cfg d (group_list cfg) data_list g = Inr (dl1, g1)"
    and rest: "date_loop G cfg ds dl1 g1 = Inr (data_list', g')"
    by (auto simp: bind_def split: sum.splits)
  from group_loop_frames [OF inner] obtain days where
    days: "dl1 = data_list @ days"
    and all1: "list_all2 (\<lambda>grp day. \<exists>ga gb. day_data G cfg d grp ga = Inr (day, gb))
                 (group_list cfg) days"
    by blast
  from Cons.IH [OF rest] obtain new where
    new: "data_list' = dl1 @ concat new"
    and all: "list_all2 (\<lambda>d days.
        list_all2 (\<lambda>grp day. \<exists>ga gb. day_data G cfg d grp ga = Inr (day, gb))
          (group_list cfg) days) ds new"
    by blast
  have "list_all2 (\<lambda>d days.
        list_all2 (\<lambda>grp day. \<exists>ga gb. day_data G cfg d grp ga = Inr (day, gb))
          (group_list cfg) days) (d # ds) (days # new)"
    using all1 all by simp
  with new days show ?case by (intro exI [of _ "days # new"]) simp
qed

lemma simulate_frames:
  assumes "simulate G cfg g = Inr (data, g')"
  obtains new where "data = concat (concat new)"
    and "list_all2 (\<lambda>d days.
        list_all2 (\<lambda>grp day. \<exists>ga gb. day_data G cfg d grp ga = Inr (day, gb))
          (group_list cfg) days) (dates cfg) new"
proof -
  from assms obtain dl where
    loop: "date_loop G cfg (dates cfg) [] g = Inr (dl, g')" and data: "data = concat dl"
    by (auto simp: simulate_def bind_def concat_frames_def split: sum.splits if_splits)
  from date_loop_frames [OF loop] data that show thesis by auto
qed

text \<open>Every row of the Event table is a row of the frame of some date and some group.\<close>

lemma simulate_row:
  assumes "simulate G cfg g = Inr (data, g')" and "e \<in> set data"
  obtains d grp ga day gb where "d \<in> set (dates cfg)" and "grp \<in> set (group_list cfg)"
    and "day_data G cfg d grp ga = Inr (day, gb)" and "e \<in> set day"
proof -
  from assms(1) obtain new where data: "data = concat (concat new)"
    and all: "list_all2 (\<lambda>d days.
        list_all2 (\<lambda>grp day. \<exists>ga gb. day_data G cfg d grp ga = Inr (day, gb))
          (group_list cfg) days) (dates cfg) new"
    by (rule simulate_frames)
  from assms(2) data obtain days day where
    days: "days \<in> set new" and day: "day \<in> set days" and e: "e \<in> set day"
    by auto
  from days obtain i where i: "i < length new" and di: "days = new ! i"
    by (auto simp: in_set_conv_nth)
  from all i have li: "i < length (dates cfg)"
    by (simp add: list_all2_lengthD)
  define d where "d = dates cfg ! i"
  have d: "d \<in> set (dates cfg)" using li by (simp add: d_def)
  have all1: "list_all2 (\<lambda>grp day. \<exists>ga gb. day_data G cfg d grp ga = Inr (day, gb))
                 (group_list cfg) days"
    unfolding d_def di using list_all2_nthD [OF all li] .
  from day obtain j where j: "j < length days" and dj: "day = days ! j"
    by (auto simp: in_set_conv_nth)
  from all1 j have lj: "j < length (group_list cfg)"
    by (simp add: list_all2_lengthD)
  define grp where "grp = group_list cfg ! j"
  have grp: "grp \<in> set (group_list cfg)" using lj by (simp add: grp_def)
  have call: "\<exists>ga gb. day_data G cfg d grp ga = Inr (day, gb)"
    unfolding grp_def dj using list_all2_nthD [OF all1 lj] .
  from call obtain ga gb where "day_data G cfg d grp ga = Inr (day, gb)" by blast
  from that [OF d grp this e] show thesis .
qed

text \<open>Every pair of a date and a group has its frame in the Event table.\<close>

lemma simulate_day:
  assumes "simulate G cfg g = Inr (data, g')"
    and "d \<in> set (dates cfg)" and "grp \<in> set (group_list cfg)"
  obtains ga day gb where "day_data G cfg d grp ga = Inr (day, gb)" and "set day \<subseteq> set data"
proof -
  from assms(1) obtain new where data: "data = concat (concat new)"
    and all: "list_all2 (\<lambda>d days.
        list_all2 (\<lambda>grp day. \<exists>ga gb. day_data G cfg d grp ga = Inr (day, gb))
          (group_list cfg) days) (dates cfg) new"
    by (rule simulate_frames)
  from assms(2) obtain i where i: "i < length (dates cfg)" and di: "d = dates cfg ! i"
    by (auto simp: in_set_conv_nth)
  define days where "days = new ! i"
  have days: "days \<in> set new"
    using all i by (simp add: days_def list_all2_lengthD [symmetric])
  have all1: "list_all2 (\<lambda>grp day. \<exists>ga gb. day_data G cfg d grp ga = Inr (day, gb))
                 (group_list cfg) days"
    unfolding days_def di using list_all2_nthD [OF all i] .
  from assms(3) obtain j where j: "j < length (group_list cfg)" and gj: "grp = group_list cfg ! j"
    by (auto simp: in_set_conv_nth)
  define day where "day = days ! j"
  have day: "day \<in> set days"
    using all1 j by (simp add: day_def list_all2_lengthD [symmetric])
  have call: "\<exists>ga gb. day_data G cfg d grp ga = Inr (day, gb)"
    unfolding day_def gj using list_all2_nthD [OF all1 j] .
  from call obtain ga gb where c: "day_data G cfg d grp ga = Inr (day, gb)" by blast
  have "set day \<subseteq> set data" using data days day by auto
  from that [OF c this] show thesis .
qed

subsection \<open>Clicks and purchases\<close>

lemma grid_purchases:
  assumes "0 < N" and "a \<le> N" and "b \<le> N"
  shows "{(j, k). j < N \<and> k < N \<and>
            event_types 1 (real a / real N) (real b / real N) [real j / real N] [real k / real N]
              = [''purchase'']} = {..<a} \<times> {..<b}"
proof -
  have "event_types 1 (real a / real N) (real b / real N) [real j / real N] [real k / real N]
          = [''purchase''] \<longleftrightarrow> j < a \<and> k < b" for j k
    using assms(1)
    by (simp add: event_types_def Let_def set_masked_def purchase_mask_def click_mask_def U10_def
        divide_less_cancel)
  then show ?thesis using assms by auto
qed

text \<open>
  Claim C2. A row of a day frame is labelled \<open>purchase\<close> exactly when its click draw
  is below the click probability of the group and its draw of the second vector, which
  \<open>rand\<close> produces from the state left by the first, is below the purchase
  probability; the purchase mask is the conjunction of the click mask with that
  comparison, so a purchase row is selected by the click mask. Counted over the \<open>N * N\<close>
  equally likely pairs of draws \<open>j / N\<close> and \<open>k / N\<close>, with probabilities \<open>a / N\<close> and
  \<open>b / N\<close>, the fraction of pairs that give a purchase is the product of the two
  probabilities.
\<close>

theorem purchase_iff_both_draws:
  assumes day: "day_data G cfg d grp g0 = Inr (rows, g5)"
    and n: "events_per_day cfg g0 = Inr (n, g1)"
    and ids: "choice G (users cfg) n g1 = Inr (uids, g2)"
    and c: "rand G n g2 = (u_click, g3)"
    and p: "rand G n g3 = (u_purchase, g4)"
    and i: "i < length rows"
  shows "(event_type (rows ! i) = ''purchase'' \<longleftrightarrow>
            u_click ! i < p_click cfg grp \<and> u_purchase ! i < p_purchase cfg grp) \<and>
         (event_type (rows ! i) = ''purchase'' \<longrightarrow>
            click_mask (p_click cfg grp) u_click ! i) \<and>
         purchase_mask (p_click cfg grp) (p_purchase cfg grp) u_click u_purchase ! i =
           (click_mask (p_click cfg grp) u_click ! i \<and> u_purchase ! i < p_purchase cfg grp) \<and>
         (\<forall>N a b. 0 < N \<and> a \<le> N \<and> b \<le> N \<longrightarrow>
            real (card {(j, k). j < N \<and> k < N \<and>
               event_types 1 (real a / real N) (real b / real N) [real j / real N] [real k / real N]
                 = [''purchase'']}) / real (N * N)
            = (real a / real N) * (real b / real N))"
proof -
  from day obtain n' g1' uids' g2' u_click' g3' u_purchase' g4' drawn where
    n': "events_per_day cfg g0 = Inr (n', g1')"
    and ids': "choice G (users cfg) n' g1' = Inr (uids', g2')"
    and c': "rand G n' g2' = (u_click', g3')"
    and p': "rand G n' g3' = (u_purchase', g4')"
    and "uniform G (fst (r_revenue cfg grp)) (snd (r_revenue cfg grp))
       (length (filter id (purchase_mask (p_click cfg grp) (p_purchase cfg grp) u_click' u_purchase')))
       g4' = (drawn, g5)"
    and len: "length rows = n'"
    and nth: "\<forall>i<n'. rows ! i =
       \<lparr> user_id = uids' ! i, date = d,
         event_type = event_types n' (p_click cfg grp) (p_purchase cfg grp) u_click' u_purchase' ! i,
         group_name = grp,
         revenue = put_masked (replicate n' 0)
                     (purchase_mask (p_click cfg grp) (p_purchase cfg grp) u_click' u_purchase')
                     drawn ! i \<rparr>"
    by (rule day_data_row)
  have same: "n' = n" "u_click' = u_click" "u_purchase' = u_purchase"
    using n n' ids ids' c c' p p' by auto
  have i': "i < n" using i len same by simp
  have lc: "length u_click = n" using rand_length [of G n g2] c by simp
  have lp: "length u_purchase = n" using rand_length [of G n g3] p by simp
  have type: "event_type (rows ! i) =
      event_types n (p_click cfg grp) (p_purchase cfg grp) u_click u_purchase ! i"
    using nth i' same by simp
  have iff: "event_type (rows ! i) = ''purchase'' \<longleftrightarrow>
            u_click ! i < p_click cfg grp \<and> u_purchase ! i < p_purchase cfg grp"
    unfolding type by (simp add: event_types_nth [OF lc lp i'])
  have cm: "click_mask (p_click cfg grp) u_click ! i \<longleftrightarrow> u_click ! i < p_click cfg grp"
    using i' lc by (simp add: click_mask_def)
  have pm: "purchase_mask (p_click cfg grp) (p_purchase cfg grp) u_click u_purchase ! i =
           (click_mask (p_click cfg grp) u_click ! i \<and> u_purchase ! i < p_purchase cfg grp)"
    using i' lc lp by (simp add: purchase_mask_nth cm)
  have grid: "real (card {(j, k). j < N \<and> k < N \<and>
               event_types 1 (real a / real N) (real b / real N) [real j / real N] [real k / real N]
                 = [''purchase'']}) / real (N * N)
            = (real a / real N) * (real b / real N)"
    if "0 < N \<and> a \<le> N \<and> b \<le> N" for N a b
  proof -
    from that have N: "0 < N" and a: "a \<le> N" and b: "b \<le> N" by simp_all
    show ?thesis
      unfolding grid_purchases [OF N a b] using N by (simp add: card_cartesian_product)
  qed
  from iff have "event_type (rows ! i) = ''purchase'' \<longrightarrow>
            click_mask (p_click cfg grp) u_click ! i"
    using cm by simp
  with iff pm grid show ?thesis by (intro conjI allI impI) auto
qed

text \<open>
  The treatment frame of the first day of \<open>mixed\<close>: the third row has the click draw 0
  and the purchase draw 0.2. On the grid of sixteen pairs, six give a purchase for the
  probabilities 3/4 and 2/4.
\<close>

theorem purchase_iff_both_draws_witness:
  "event_type (fst (projr (day_data counter mixed 0 ''treatment'' 70)) ! 2) = ''purchase'' \<and>
   fst (rand counter 4 74) ! 2 < p_click mixed ''treatment'' \<and>
   fst (rand counter 4 86) ! 2 < p_purchase mixed ''treatment'' \<and>
   real (card {(j, k). j < 4 \<and> k < 4 \<and>
      event_types 1 (real 3 / real 4) (real 2 / real 4) [real j / real 4] [real k / real 4]
        = [''purchase'']}) / real (4 * 4) = (real 3 / real 4) * (real 2 / real 4)"
proof -
  let ?rows = "[\<lparr>user_id = 1000, date = 0, event_type = ''click'', group_name = ''treatment'', revenue = 0\<rparr>,
          \<lparr>user_id = 1001, date = 0, event_type = ''click'', group_name = ''treatment'', revenue = 0\<rparr>,
          \<lparr>user_id = 1002, date = 0, event_type = ''purchase'', group_name = ''treatment'', revenue = 164\<rparr>,
          \<lparr>user_id = 1003, date = 0, event_type = ''click'', group_name = ''treatment'', revenue = 0\<rparr>]"
  have day: "day_data counter mixed 0 ''treatment'' 70 = Inr (?rows, 101)"
    by code_simp
  have n: "events_per_day mixed 70 = Inr (4, 70)" by code_simp
  have ids: "choice counter (users mixed) 4 70 = Inr ([1000, 1001, 1002, 1003], 74)" by code_simp
  have c: "rand counter 4 74 = ([4 / 10, 7 / 10, 0, 3 / 10], 86)" by code_simp
  have p: "rand counter 4 86 = ([6 / 10, 9 / 10, 2 / 10, 5 / 10], 98)" by code_simp
  have i: "2 < length ?rows" by simp
  note t = purchase_iff_both_draws [OF day n ids c p i]
  have a: "event_type (fst (projr (day_data counter mixed 0 ''treatment'' 70)) ! 2) = ''purchase''"
    by (simp add: day)
  have b: "fst (rand counter 4 74) ! 2 < p_click mixed ''treatment'' \<and>
           fst (rand counter 4 86) ! 2 < p_purchase mixed ''treatment''"
    using t [THEN conjunct1] by (simp add: c p)
  have g: "real (card {(j, k). j < 4 \<and> k < 4 \<and>
      event_types 1 (real 3 / real 4) (real 2 / real 4) [real j / real 4] [real k / real 4]
        = [''purchase'']}) / real (4 * 4) = (real 3 / real 4) * (real 2 / real 4)"
    by (rule t [THEN conjunct2, THEN conjunct2, THEN conjunct2, rule_format]) simp
  from a b g show ?thesis by blast
qed

subsection \<open>Labels and revenue of the simulated events\<close>

text \<open>
  Claim C7. In the Event table that the simulator returns, for a generator whose doubles
  lie in \<open>[0, 1)\<close> and revenue ranges with \<open>0 < low \<le> high\<close> (the reference ranges are
  such), every row is labelled \<open>view\<close>, \<open>click\<close> or \<open>purchase\<close>, its revenue is
  positive exactly when it is a purchase, and it is 0 otherwise.
\<close>

theorem event_types_and_revenue:
  assumes sim: "simulate G cfg g = Inr (data, g')"
    and ok: "bitgen_ok G"
    and range: "\<forall>grp \<in> set (group_list cfg).
                  0 < fst (r_revenue cfg grp) \<and> fst (r_revenue cfg grp) \<le> snd (r_revenue cfg grp)"
    and e: "e \<in> set data"
  shows "event_type e \<in> {''view'', ''click'', ''purchase''} \<and>
         (0 < revenue e \<longleftrightarrow> event_type e = ''purchase'') \<and>
         (event_type e \<noteq> ''purchase'' \<longrightarrow> revenue e = 0)"
proof -
  from sim e obtain d grp ga day gb where
    grp: "grp \<in> set (group_list cfg)"
    and day: "day_data G cfg d grp ga = Inr (day, gb)"
    and mem: "e \<in> set day"
    by (rule simulate_row)
  from range grp have lo: "0 < fst (r_revenue cfg grp)"
    and le: "fst (r_revenue cfg grp) \<le> snd (r_revenue cfg grp)"
    by simp_all
  from day_data_event [OF day mem]
  have types: "event_type e \<in> {''view'', ''click'', ''purchase''}" by simp
  from day_data_revenue [OF ok le day mem]
  have purchase: "event_type e = ''purchase'' \<Longrightarrow> fst (r_revenue cfg grp) \<le> revenue e"
    and other: "event_type e \<noteq> ''purchase'' \<Longrightarrow> revenue e = 0"
    by simp_all
  have "0 < revenue e \<longleftrightarrow> event_type e = ''purchase''"
    using purchase other lo by (cases "event_type e = ''purchase''") auto
  with types other show ?thesis by simp
qed

lemma reference_revenue_range:
  "r_revenue (reference G) grp = (20, 200)"
  by (simp add: r_revenue_def reference_def)

subsection \<open>Determinism\<close>

text \<open>
  Claim C8. With one seed and one configuration, two runs of the notebook return the
  same Event table and the same KPI table (or raise the same exception), whatever state
  the global generator was in before each run: the seeding cell overwrites it.
\<close>

theorem runs_are_identical:
  "notebook G cfg s g1 = notebook G cfg s g2"
  by (simp add: notebook_def seed_def)

subsection \<open>The global revenue range\<close>

lemma day_data_global:
  "revenue_global cfg \<Longrightarrow>
   day_data G (cfg \<lparr> r_revenue_control := a, r_revenue_treatment := b \<rparr>) d grp g =
   day_data G cfg d grp g"
  by (simp add: day_data_def r_revenue_def p_click_def p_purchase_def users_def)

lemma group_loop_global:
  "revenue_global cfg \<Longrightarrow>
   group_loop G (cfg \<lparr> r_revenue_control := a, r_revenue_treatment := b \<rparr>) d grps dl g =
   group_loop G cfg d grps dl g"
  by (induction grps arbitrary: dl g)
     (auto simp: day_data_global bind_def split: sum.splits prod.splits)

lemma date_loop_global:
  "revenue_global cfg \<Longrightarrow>
   date_loop G (cfg \<lparr> r_revenue_control := a, r_revenue_treatment := b \<rparr>) ds dl g =
   date_loop G cfg ds dl g"
  by (induction ds arbitrary: dl g)
     (auto simp: group_loop_global bind_def split: sum.splits prod.splits)

lemma simulate_global:
  "revenue_global cfg \<Longrightarrow>
   simulate G (cfg \<lparr> r_revenue_control := a, r_revenue_treatment := b \<rparr>) g = simulate G cfg g"
  by (simp add: simulate_def date_loop_global dates_def)

text \<open>
  Claim C10. The reference configuration has \<open>revenue_global\<close> set and the global range
  \<open>(20, 200)\<close>. For every configuration with these two settings the simulator returns
  the same Event table whatever the two per-group ranges are, and the revenue of every
  purchase, of either group, lies in \<open>[20, 200)\<close>.
\<close>

theorem global_revenue_range:
  assumes glob: "revenue_global cfg"
    and range: "r_revenue_global cfg = (20, 200)"
    and ok: "bitgen_ok G"
    and sim: "simulate G cfg g = Inr (data, g')"
  shows "revenue_global (reference G) \<and> r_revenue_global (reference G) = (20, 200) \<and>
         simulate G (cfg \<lparr> r_revenue_control := a, r_revenue_treatment := b \<rparr>) g = Inr (data, g') \<and>
         (\<forall>e \<in> set data. event_type e = ''purchase'' \<longrightarrow> 20 \<le> revenue e \<and> revenue e < 200)"
proof -
  have r: "r_revenue cfg grp = (20, 200)" for grp
    using glob range by (simp add: r_revenue_def)
  have "20 \<le> revenue e \<and> revenue e < 200" if e: "e \<in> set data" and p: "event_type e = ''purchase''" for e
  proof -
    from sim e obtain d grp ga day gb where
      day: "day_data G cfg d grp ga = Inr (day, gb)" and mem: "e \<in> set day"
      by (rule simulate_row)
    have le: "fst (r_revenue cfg grp) \<le> snd (r_revenue cfg grp)" by (simp add: r)
    from day_data_revenue [OF ok le day mem] p show ?thesis by (simp add: r)
  qed
  then show ?thesis
    using sim by (simp add: simulate_global [OF glob] reference_def)
qed

subsection \<open>The three counts of a KPI row\<close>

lemma labels_partition:
  "\<forall>e \<in> set x. event_type e \<in> {''view'', ''click'', ''purchase''} \<Longrightarrow>
   length (filter (\<lambda>e. event_type e = ''view'') x) +
   length (filter (\<lambda>e. event_type e = ''click'') x) +
   length (filter (\<lambda>e. event_type e = ''purchase'') x) = length x"
  by (induction x) auto

lemma simulate_types:
  assumes "simulate G cfg g = Inr (data, g')" and "e \<in> set data"
  shows "event_type e \<in> {''view'', ''click'', ''purchase''}"
proof -
  from assms obtain d grp ga day gb where
    "day_data G cfg d grp ga = Inr (day, gb)" and "e \<in> set day"
    by (rule simulate_row)
  from day_data_event [OF this] show ?thesis by simp
qed

text \<open>
  Claim C9. In every row of the KPI table of a simulated Event table, the three counts
  are finite and \<open>views + clicks + purchases\<close> is the number of rows of the Event table
  with the group and the date of that row.
\<close>

theorem counts_add_up:
  assumes sim: "simulate G cfg g = Inr (data, g')"
    and kpi: "kpi_data data = Inr kpi"
    and i: "i < nrows kpi"
  shows "\<exists>v c p.
     nums kpi ''views'' ! i = Fin v \<and> nums kpi ''clicks'' ! i = Fin c \<and>
     nums kpi ''purchases'' ! i = Fin p \<and>
     v + c + p = real (length (filter (\<lambda>e. group_name e = strs kpi ''group'' ! i \<and>
                                             date e = days kpi ''date'' ! i) data))"
proof -
  let ?k = "group_keys data ! i"
  let ?x = "rows_of data ?k"
  have len: "i < length (group_keys data)"
    using i kpi by (simp add: kpi_nrows)
  have k: "strs kpi ''group'' ! i = fst ?k" "days kpi ''date'' ! i = snd ?k"
    using len by (simp_all add: kpi_columns [OF kpi])
  have x: "filter (\<lambda>e. group_name e = strs kpi ''group'' ! i \<and> date e = days kpi ''date'' ! i) data = ?x"
    unfolding k rows_of_def key_def by (rule filter_cong) (auto simp: prod_eq_iff)
  have "\<forall>e \<in> set ?x. event_type e \<in> {''view'', ''click'', ''purchase''}"
    using simulate_types [OF sim] by (simp add: rows_of_def)
  from labels_partition [OF this]
  have "real (length (filter (\<lambda>e. event_type e = ''view'') ?x)) +
        real (length (filter (\<lambda>e. event_type e = ''click'') ?x)) +
        real (length (filter (\<lambda>e. event_type e = ''purchase'') ?x)) = real (length ?x)"
    by (simp flip: of_nat_add)
  then show ?thesis
    unfolding x using len by (simp add: kpi_columns [OF kpi] count_type_def)
qed

subsection \<open>Rows and columns of the KPI table\<close>

lemma group_keys_set: "set (group_keys data) = key ` set data"
  by (simp add: group_keys_def)

lemma group_keys_distinct: "distinct (group_keys data)"
  by (simp add: group_keys_def)

lemma group_keys_length: "length (group_keys data) = card (key ` set data)"
  using distinct_card [OF group_keys_distinct, of data] by (simp add: group_keys_set)

text \<open>The reference configuration never raises, and every frame has at least 150 rows.\<close>

lemma day_data_total:
  assumes "events_per_day cfg g = Inr (n, g1)" and "users cfg \<noteq> []"
  shows "\<exists>rows g'. day_data G cfg d grp g = Inr (rows, g')"
  using assms
  by (auto simp: day_data_def bind_def choice_def Let_def split: prod.splits)

lemma reference_events_per_day:
  "\<exists>n g1. events_per_day (reference G) g = Inr (n, g1) \<and> 150 \<le> n"
  by (cases "bounded G 50 g") (simp add: reference_def randint_def)

lemma reference_users: "users (reference G) \<noteq> []"
  by (simp add: users_def reference_def)

lemma day_data_reference:
  "\<exists>rows g'. day_data G (reference G) d grp g = Inr (rows, g')"
proof -
  from reference_events_per_day [of G g] obtain n g1 where
    "events_per_day (reference G) g = Inr (n, g1)" by blast
  from day_data_total [OF this reference_users] show ?thesis .
qed

lemma day_data_reference_rows:
  assumes "day_data G (reference G) d grp g = Inr (rows, g')"
  shows "150 \<le> length rows"
proof -
  from assms obtain n g1 uids g2 u_click g3 u_purchase g4 drawn where
    n: "events_per_day (reference G) g = Inr (n, g1)"
    and "choice G (users (reference G)) n g1 = Inr (uids, g2)"
    and "rand G n g2 = (u_click, g3)"
    and "rand G n g3 = (u_purchase, g4)"
    and "uniform G (fst (r_revenue (reference G) grp)) (snd (r_revenue (reference G) grp))
       (length (filter id (purchase_mask (p_click (reference G) grp) (p_purchase (reference G) grp) u_click u_purchase)))
       g4 = (drawn, g')"
    and len: "length rows = n"
    and "\<forall>i<n. rows ! i =
       \<lparr> user_id = uids ! i, date = d,
         event_type = event_types n (p_click (reference G) grp) (p_purchase (reference G) grp) u_click u_purchase ! i,
         group_name = grp,
         revenue = put_masked (replicate n 0)
                     (purchase_mask (p_click (reference G) grp) (p_purchase (reference G) grp) u_click u_purchase)
                     drawn ! i \<rparr>"
    by (rule day_data_row)
  from n reference_events_per_day [of G g] have "150 \<le> n" by auto
  with len show ?thesis by simp
qed

lemma group_loop_total:
  assumes "\<And>grp g. \<exists>rows g'. day_data G cfg d grp g = Inr (rows, g')"
  shows "\<exists>dl' g'. group_loop G cfg d grps dl g = Inr (dl', g')"
proof (induction grps arbitrary: dl g)
  case Nil
  then show ?case by simp
next
  case (Cons grp grps)
  from assms obtain rows g1 where "day_data G cfg d grp g = Inr (rows, g1)" by blast
  with Cons.IH [of "dl @ [rows]" g1] show ?case by (simp add: bind_def)
qed

lemma date_loop_total:
  assumes "\<And>d grp g. \<exists>rows g'. day_data G cfg d grp g = Inr (rows, g')"
  shows "\<exists>dl' g'. date_loop G cfg ds dl g = Inr (dl', g')"
proof (induction ds arbitrary: dl g)
  case Nil
  then show ?case by simp
next
  case (Cons d ds)
  from group_loop_total [of G cfg d "group_list cfg" dl g] assms
  obtain dl1 g1 where "group_loop G cfg d (group_list cfg) dl g = Inr (dl1, g1)" by blast
  with Cons.IH [of dl1 g1] show ?case by (simp add: bind_def)
qed

lemma simulate_total:
  assumes day: "\<And>d grp g. \<exists>rows g'. day_data G cfg d grp g = Inr (rows, g')"
    and ds: "dates cfg \<noteq> []" and grps: "group_list cfg \<noteq> []"
  shows "\<exists>data g'. simulate G cfg g = Inr (data, g')"
proof -
  from date_loop_total [OF day, of "dates cfg" "[]" g]
  obtain dl g' where loop: "date_loop G cfg (dates cfg) [] g = Inr (dl, g')"
    by blast
  from date_loop_frames [OF loop] obtain new where
    dl: "dl = concat new"
    and all: "list_all2 (\<lambda>d days.
        list_all2 (\<lambda>grp day. \<exists>ga gb. day_data G cfg d grp ga = Inr (day, gb))
          (group_list cfg) days) (dates cfg) new"
    by auto
  have 0: "0 < length (dates cfg)" using ds by simp
  then have new: "0 < length new" using list_all2_lengthD [OF all] by simp
  from list_all2_nthD [OF all 0] have "length (new ! 0) = length (group_list cfg)"
    by (simp add: list_all2_lengthD)
  then have "new ! 0 \<noteq> []" using grps by auto
  moreover have "new ! 0 \<in> set new" using new by simp
  ultimately have "dl \<noteq> []" unfolding dl by auto
  then show ?thesis by (simp add: simulate_def loop bind_def concat_frames_def)
qed

lemma simulate_reference:
  "\<exists>data g'. simulate G (reference G) g = Inr (data, g')"
  by (rule simulate_total [OF day_data_reference]) (simp_all add: dates_def reference_def)

lemma simulate_reference_keys:
  assumes sim: "simulate G (reference G) g = Inr (data, g')"
  shows "key ` set data = {''control'', ''treatment''} \<times> {0..<30}"
proof (intro equalityI subsetI)
  fix k assume "k \<in> key ` set data"
  then obtain e where e: "e \<in> set data" and k: "k = key e" by blast
  from sim e obtain d grp ga day gb where
    d: "d \<in> set (dates (reference G))" and grp: "grp \<in> set (group_list (reference G))"
    and day: "day_data G (reference G) d grp ga = Inr (day, gb)" and mem: "e \<in> set day"
    by (rule simulate_row)
  from day_data_event [OF day mem] have "key e = (grp, d)" by (simp add: key_def)
  with d grp k show "k \<in> {''control'', ''treatment''} \<times> {0..<30}"
    by (auto simp: dates_def reference_def)
next
  fix k :: "string \<times> nat" assume k: "k \<in> {''control'', ''treatment''} \<times> {0..<30}"
  obtain grp d where kd: "k = (grp, d)" by (cases k)
  from k kd have d: "d \<in> set (dates (reference G))" and grp: "grp \<in> set (group_list (reference G))"
    by (auto simp: dates_def reference_def)
  from sim d grp obtain ga day gb where
    day: "day_data G (reference G) d grp ga = Inr (day, gb)" and sub: "set day \<subseteq> set data"
    by (rule simulate_day)
  from day_data_reference_rows [OF day] obtain e where mem: "e \<in> set day"
    by (cases day) auto
  from day_data_event [OF day mem] have "key e = k" by (simp add: key_def kd)
  with mem sub show "k \<in> key ` set data" by blast
qed

lemma reference_pairs: "card ({''control'', ''treatment''} \<times> {0..<30::nat}) = 60"
  by (simp add: card_cartesian_product)

lemma kpi_data_total: "data \<noteq> [] \<Longrightarrow> \<exists>kpi. kpi_data data = Inr kpi"
  by (simp add: kpi_data_frame)

text \<open>
  Claim C6. The KPI table has the nine columns \<open>group\<close>, \<open>date\<close>, \<open>views\<close>, \<open>clicks\<close>,
  \<open>purchases\<close>, \<open>revenue\<close>, \<open>CVR\<close>, \<open>AOV\<close>, \<open>CTR\<close>, each numeric column with one
  entry for each row, and exactly one row for each pair of a group and a date that
  occurs in the Event table. The notebook with the reference configuration returns,
  for every generator, a KPI table of 60 rows.
\<close>

theorem one_row_per_pair:
  assumes kpi: "kpi_data data = Inr kpi"
  shows "columns kpi = [''group'', ''date'', ''views'', ''clicks'', ''purchases'', ''revenue'',
                        ''CVR'', ''AOV'', ''CTR''] \<and>
         distinct (row_keys kpi) \<and>
         set (row_keys kpi) = key ` set data \<and>
         (\<forall>c \<in> {''views'', ''clicks'', ''purchases'', ''revenue'', ''CVR'', ''AOV'', ''CTR''}.
            length (nums kpi c) = nrows kpi) \<and>
         (\<exists>data' kpi'. notebook G (reference G) s g = Inr (data', kpi') \<and> nrows kpi' = 60)"
proof -
  have cols: "columns kpi = [''group'', ''date'', ''views'', ''clicks'', ''purchases'', ''revenue'',
                        ''CVR'', ''AOV'', ''CTR'']"
    by (rule kpi_columns [OF kpi])
  have keys: "distinct (row_keys kpi)" "set (row_keys kpi) = key ` set data"
    by (simp_all add: kpi_row_keys [OF kpi] group_keys_distinct group_keys_set)
  have lens: "\<forall>c \<in> {''views'', ''clicks'', ''purchases'', ''revenue'', ''CVR'', ''AOV'', ''CTR''}.
            length (nums kpi c) = nrows kpi"
    by (simp add: kpi_columns [OF kpi] kpi_nrows [OF kpi])
  have ref: "\<exists>data' kpi'. notebook G (reference G) s g = Inr (data', kpi') \<and> nrows kpi' = 60"
  proof -
    from simulate_reference [of G "seed G s g"] obtain data' g' where
      sim: "simulate G (reference G) (seed G s g) = Inr (data', g')" by blast
    from simulate_reference_keys [OF sim]
    have pairs: "key ` set data' = {''control'', ''treatment''} \<times> {0..<30}" .
    have "(''control'', 0) \<in> key ` set data'" unfolding pairs by simp
    then have "data' \<noteq> []" by auto
    from kpi_data_total [OF this] obtain kpi' where k': "kpi_data data' = Inr kpi'" by (rule exE)
    have "nrows kpi' = 60"
      by (simp add: kpi_nrows [OF k'] group_keys_length pairs reference_pairs)
    then show ?thesis by (simp add: notebook_def sim k' bind_def)
  qed
  show ?thesis using cols keys lens ref by (intro conjI) assumption+
qed

text \<open>The KPI table of \<open>mixed\<close>: four rows for the four pairs of the Event table.\<close>

theorem one_row_per_pair_witness:
  "columns mixed_kpi =
     [''group'', ''date'', ''views'', ''clicks'', ''purchases'', ''revenue'', ''CVR'', ''AOV'', ''CTR''] \<and>
   row_keys mixed_kpi = [(''control'', 0), (''control'', 1), (''treatment'', 0), (''treatment'', 1)] \<and>
   key ` set mixed_data = {(''control'', 0), (''control'', 1), (''treatment'', 0), (''treatment'', 1)} \<and>
   length (nums mixed_kpi ''CVR'') = 4 \<and>
   (\<exists>data' kpi'. notebook counter (reference counter) 42 0 = Inr (data', kpi') \<and> nrows kpi' = 60)"
proof -
  have keys: "row_keys mixed_kpi =
      [(''control'', 0), (''control'', 1), (''treatment'', 0), (''treatment'', 1)]"
    by (simp add: row_keys_def strs_def days_def mixed_kpi_def)
  have n: "nrows mixed_kpi = 4"
    by (simp add: nrows_def keys)
  note t = one_row_per_pair [OF mixed_kpi_data, of counter 42 0]
  from t have "set (row_keys mixed_kpi) = key ` set mixed_data" by blast
  then have a: "key ` set mixed_data =
      {(''control'', 0), (''control'', 1), (''treatment'', 0), (''treatment'', 1)}"
    unfolding keys by auto
  from t have b: "length (nums mixed_kpi ''CVR'') = 4" unfolding n by simp
  from t a b keys show ?thesis by simp
qed

subsection \<open>The hypotheses at the examples\<close>

text \<open>
  The second and third rows of the Event table of \<open>mixed\<close>: a view and a purchase. The
  reference configuration meets the hypotheses as well; its Event table has a first row.
\<close>

theorem event_types_and_revenue_witness:
  "simulate counter mixed 42 = Inr (mixed_data, 175) \<and>
   event_type (mixed_data ! 1) = ''view'' \<and> revenue (mixed_data ! 1) = 0 \<and>
   event_type (mixed_data ! 2) = ''purchase'' \<and> 0 < revenue (mixed_data ! 2) \<and>
   (\<exists>data g'. simulate counter (reference counter) 42 = Inr (data, g') \<and> data \<noteq> [] \<and>
      event_type (hd data) \<in> {''view'', ''click'', ''purchase''} \<and>
      (0 < revenue (hd data)) = (event_type (hd data) = ''purchase''))"
proof -
  have range: "\<forall>grp \<in> set (group_list mixed).
      0 < fst (r_revenue mixed grp) \<and> fst (r_revenue mixed grp) \<le> snd (r_revenue mixed grp)"
    by (simp add: r_revenue_def mixed_def reference_def)
  have m1: "mixed_data ! 1 \<in> set mixed_data" and m2: "mixed_data ! 2 \<in> set mixed_data"
    by (simp_all add: mixed_data_def)
  have types: "event_type (mixed_data ! 1) = ''view''" "event_type (mixed_data ! 2) = ''purchase''"
    by (simp_all add: mixed_data_def row_def)
  from event_types_and_revenue [OF mixed_simulate counter_ok range m1]
       event_types_and_revenue [OF mixed_simulate counter_ok range m2] types
  have small: "simulate counter mixed 42 = Inr (mixed_data, 175) \<and>
   event_type (mixed_data ! 1) = ''view'' \<and> revenue (mixed_data ! 1) = 0 \<and>
   event_type (mixed_data ! 2) = ''purchase'' \<and> 0 < revenue (mixed_data ! 2)"
    by (simp add: mixed_simulate)
  from simulate_reference [of counter 42] obtain data g' where
    sim: "simulate counter (reference counter) 42 = Inr (data, g')" by blast
  have "(''control'', 0) \<in> key ` set data"
    unfolding simulate_reference_keys [OF sim] by simp
  then have ne: "data \<noteq> []" by auto
  then have mem: "hd data \<in> set data" by simp
  have ref: "\<forall>grp \<in> set (group_list (reference counter)).
      0 < fst (r_revenue (reference counter) grp) \<and>
      fst (r_revenue (reference counter) grp) \<le> snd (r_revenue (reference counter) grp)"
    by (simp add: reference_revenue_range)
  from event_types_and_revenue [OF sim counter_ok ref mem] sim ne
  have "\<exists>data g'. simulate counter (reference counter) 42 = Inr (data, g') \<and> data \<noteq> [] \<and>
      event_type (hd data) \<in> {''view'', ''click'', ''purchase''} \<and>
      (0 < revenue (hd data)) = (event_type (hd data) = ''purchase'')"
    by blast
  with small show ?thesis by (intro conjI) simp_all
qed

text \<open>
  \<open>mixed\<close> with the per-group ranges of the notebook and with two other ranges gives one
  table; its tenth row is a purchase of the control group. The reference configuration
  with two other ranges gives the table it gives with its own.
\<close>

theorem global_revenue_range_witness:
  "simulate counter (mixed \<lparr> r_revenue_control := (200, 300), r_revenue_treatment := (20, 100) \<rparr>) 42
     = Inr (mixed_data, 175) \<and>
   simulate counter (mixed \<lparr> r_revenue_control := (1, 2), r_revenue_treatment := (3, 4) \<rparr>) 42
     = Inr (mixed_data, 175) \<and>
   event_type (mixed_data ! 9) = ''purchase'' \<and> group_name (mixed_data ! 9) = ''control'' \<and>
   20 \<le> revenue (mixed_data ! 9) \<and> revenue (mixed_data ! 9) < 200 \<and>
   (\<exists>data g'. simulate counter (reference counter) 42 = Inr (data, g') \<and>
      simulate counter
        ((reference counter) \<lparr> r_revenue_control := (1, 2), r_revenue_treatment := (3, 4) \<rparr>) 42
        = Inr (data, g'))"
proof -
  have glob: "revenue_global mixed" and range: "r_revenue_global mixed = (20, 200)"
    by (simp_all add: mixed_def reference_def)
  have mem: "mixed_data ! 9 \<in> set mixed_data"
    by (simp add: mixed_data_def)
  have type: "event_type (mixed_data ! 9) = ''purchase''" "group_name (mixed_data ! 9) = ''control''"
    by (simp_all add: mixed_data_def row_def)
  note t = global_revenue_range [OF glob range counter_ok mixed_simulate]
  have "20 \<le> revenue (mixed_data ! 9) \<and> revenue (mixed_data ! 9) < 200"
    using t [where a = "(1, 2)" and b = "(3, 4)"] mem type by blast
  then have small: "simulate counter (mixed \<lparr> r_revenue_control := (200, 300), r_revenue_treatment := (20, 100) \<rparr>) 42
     = Inr (mixed_data, 175) \<and>
   simulate counter (mixed \<lparr> r_revenue_control := (1, 2), r_revenue_treatment := (3, 4) \<rparr>) 42
     = Inr (mixed_data, 175) \<and>
   event_type (mixed_data ! 9) = ''purchase'' \<and> group_name (mixed_data ! 9) = ''control'' \<and>
   20 \<le> revenue (mixed_data ! 9) \<and> revenue (mixed_data ! 9) < 200"
    using t [where a = "(200, 300)" and b = "(20, 100)"] t [where a = "(1, 2)" and b = "(3, 4)"] type
    by simp
  from simulate_reference [of counter 42] obtain data g' where
    sim: "simulate counter (reference counter) 42 = Inr (data, g')" by blast
  have rglob: "revenue_global (reference counter)"
    and rrange: "r_revenue_global (reference counter) = (20, 200)"
    by (simp_all add: reference_def)
  from global_revenue_range [OF rglob rrange counter_ok sim, where a = "(1, 2)" and b = "(3, 4)"] sim
  have "\<exists>data g'. simulate counter (reference counter) 42 = Inr (data, g') \<and>
      simulate counter
        ((reference counter) \<lparr> r_revenue_control := (1, 2), r_revenue_treatment := (3, 4) \<rparr>) 42
        = Inr (data, g')"
    by blast
  with small show ?thesis by (intro conjI) simp_all
qed

text \<open>The first row of the KPI table of \<open>mixed\<close>: one view, two clicks and one purchase.\<close>

theorem counts_add_up_witness:
  "nums mixed_kpi ''views'' ! 0 = Fin 1 \<and> nums mixed_kpi ''clicks'' ! 0 = Fin 2 \<and>
   nums mixed_kpi ''purchases'' ! 0 = Fin 1 \<and>
   strs mixed_kpi ''group'' ! 0 = ''control'' \<and> days mixed_kpi ''date'' ! 0 = 0 \<and>
   real (length (filter (\<lambda>e. group_name e = ''control'' \<and> date e = 0) mixed_data)) = 1 + 2 + 1"
proof -
  have i: "0 < nrows mixed_kpi"
    by (simp add: nrows_def row_keys_def strs_def days_def mixed_kpi_def)
  have cols: "nums mixed_kpi ''views'' ! 0 = Fin 1" "nums mixed_kpi ''clicks'' ! 0 = Fin 2"
    "nums mixed_kpi ''purchases'' ! 0 = Fin 1"
    "strs mixed_kpi ''group'' ! 0 = ''control''" "days mixed_kpi ''date'' ! 0 = 0"
    by (simp_all add: nums_def strs_def days_def mixed_kpi_def)
  from counts_add_up [OF mixed_simulate mixed_kpi_data i] cols
  show ?thesis by simp
qed

subsection \<open>What the \<open>views\<close> column counts\<close>

text \<open>
  The \<open>views\<close> count of the aggregation is the number of rows still labelled \<open>view\<close>:
  a row promoted to \<open>click\<close> or \<open>purchase\<close> is no longer counted, although the notebook
  documents CVR and CTR as percentages of the visits and its contingency table takes
  \<open>views - purchases\<close> for the visits without a purchase. The three theorems below
  evaluate the code where this shows.
\<close>

text \<open>The \<open>views\<close> entry of a row is the number of its events that are labelled \<open>view\<close>.\<close>

lemma views_counts_rows_labelled_view:
  assumes kpi: "kpi_data data = Inr kpi" and i: "i < nrows kpi"
  shows "nums kpi ''views'' ! i =
     Fin (real (length (filter (\<lambda>e. key e = row_keys kpi ! i \<and> event_type e = ''view'') data)))"
proof -
  have len: "i < length (group_keys data)"
    using i kpi by (simp add: kpi_nrows)
  show ?thesis
    using len by (simp add: kpi_columns [OF kpi] kpi_row_keys [OF kpi] count_type_def rows_of_def
        conj_commute)
qed

lemma remdups_replicate_same: "0 < n \<Longrightarrow> remdups (replicate n x) = [x]"
proof (induction n)
  case 0
  then show ?case by simp
next
  case (Suc n)
  then show ?case by (cases n) auto
qed

text \<open>
  The end-to-end scenario for every generator whose doubles lie in \<open>[0, 1)\<close>: five
  purchases, no view and no click left, and both rates 0.
\<close>

lemma scenario_any_generator:
  fixes G :: "'g bitgen"
  assumes ok: "bitgen_ok G" and nb: "notebook G scenario s g = Inr (data, kpi)"
  shows "length data = 5 \<and> (\<forall>e \<in> set data. event_type e = ''purchase'') \<and>
         nums kpi ''views'' = [Fin 0] \<and> nums kpi ''clicks'' = [Fin 0] \<and>
         nums kpi ''purchases'' = [Fin 5] \<and>
         nums kpi ''CVR'' = [Fin 0] \<and> nums kpi ''CTR'' = [Fin 0] \<and>
         nums kpi ''AOV'' = [Fin (sum_list (map revenue data) / 5)]"
proof -
  define cfg :: "'g config" where "cfg = scenario"
  from nb obtain g' where sim: "simulate G cfg (seed G s g) = Inr (data, g')"
    and kpi: "kpi_data data = Inr kpi"
    by (auto simp: notebook_def bind_def cfg_def split: sum.splits)
  from sim obtain new where data: "data = concat (concat new)"
    and all: "list_all2 (\<lambda>d days.
        list_all2 (\<lambda>grp day. \<exists>ga gb. day_data G cfg d grp ga = Inr (day, gb))
          (group_list cfg) days) (dates cfg) new"
    by (rule simulate_frames)
  have ds: "dates cfg = [0]" and gs: "group_list cfg = [''control'']"
    by (simp_all add: dates_def cfg_def scenario_def)
  from all obtain days where new: "new = [days]"
    and all1: "list_all2 (\<lambda>grp day. \<exists>ga gb. day_data G cfg 0 grp ga = Inr (day, gb))
                 [''control''] days"
    unfolding ds gs by (auto simp: list_all2_Cons1)
  from all1 obtain day ga gb where days: "days = [day]"
    and day: "day_data G cfg 0 ''control'' ga = Inr (day, gb)"
    by (auto simp: list_all2_Cons1)
  have dd: "data = day" using data new days by simp
  from day obtain n g1 uids g2 u_click g3 u_purchase g4 drawn where
    n: "events_per_day cfg ga = Inr (n, g1)"
    and "choice G (users cfg) n g1 = Inr (uids, g2)"
    and c: "rand G n g2 = (u_click, g3)"
    and p: "rand G n g3 = (u_purchase, g4)"
    and "uniform G (fst (r_revenue cfg ''control'')) (snd (r_revenue cfg ''control''))
       (length (filter id (purchase_mask (p_click cfg ''control'')
          (p_purchase cfg ''control'') u_click u_purchase)))
       g4 = (drawn, gb)"
    and len: "length day = n"
    and nth: "\<forall>i<n. day ! i =
       \<lparr> user_id = uids ! i, date = 0,
         event_type = event_types n (p_click cfg ''control'')
            (p_purchase cfg ''control'') u_click u_purchase ! i,
         group_name = ''control'',
         revenue = put_masked (replicate n 0)
                     (purchase_mask (p_click cfg ''control'')
                        (p_purchase cfg ''control'') u_click u_purchase)
                     drawn ! i \<rparr>"
    by (rule day_data_row)
  have n5: "n = 5" using n by (simp add: cfg_def scenario_def)
  have pc: "p_click cfg ''control'' = 1" and pp: "p_purchase cfg ''control'' = 1"
    by (simp_all add: p_click_def p_purchase_def cfg_def scenario_def)
  have lc: "length u_click = n" using rand_length [of G n g2] c by simp
  have lp: "length u_purchase = n" using rand_length [of G n g3] p by simp
  have row: "event_type e = ''purchase'' \<and> key e = (''control'', 0)" if "e \<in> set data" for e
  proof -
    from that obtain i where i: "i < n" and e: "e = day ! i"
      unfolding dd using len by (auto simp: in_set_conv_nth)
    have "u_click ! i \<in> set (fst (rand G n g2))" "u_purchase ! i \<in> set (fst (rand G n g3))"
      using i lc lp c p by simp_all
    then have "u_click ! i < 1" "u_purchase ! i < 1"
      using rand_range [OF ok] by blast+
    then show ?thesis
      unfolding e using nth i by (simp add: event_types_nth [OF lc lp i] pc pp key_def)
  qed
  have l5: "length data = 5" using dd len n5 by simp
  then have ne: "data \<noteq> []" by auto
  have keys: "map key data = replicate (length data) (''control'', 0)"
    using row by (intro nth_equalityI) simp_all
  have gk: "group_keys data = [(''control'', 0)]"
    unfolding group_keys_def keys using ne by (simp add: remdups_replicate_same)
  have rows: "rows_of data (''control'', 0) = data"
    unfolding rows_of_def using row by (intro filter_True) simp
  have cp: "filter (\<lambda>e. event_type e = ''purchase'') data = data"
    using row by (intro filter_True) simp
  have cv: "filter (\<lambda>e. event_type e = ''view'') data = []"
    and cc: "filter (\<lambda>e. event_type e = ''click'') data = []"
    using row by (auto simp: filter_empty_conv)
  have counts: "count_type ''purchase'' data = Fin 5" "count_type ''view'' data = Fin 0"
    "count_type ''click'' data = Fin 0"
    by (simp_all add: count_type_def cp cv cc l5)
  have "nums kpi ''views'' = [Fin 0] \<and> nums kpi ''clicks'' = [Fin 0] \<and>
         nums kpi ''purchases'' = [Fin 5] \<and>
         nums kpi ''CVR'' = [Fin 0] \<and> nums kpi ''CTR'' = [Fin 0] \<and>
         nums kpi ''AOV'' = [Fin (sum_list (map revenue data) / 5)]"
    by (simp add: kpi_columns [OF kpi] gk rows counts cvr_of_def ctr_of_def aov_of_def
        sum_revenue_def replace_inf_def fill_def)
  with l5 row show ?thesis by blast
qed

text \<open>
  Claim C3 states that CVR and CTR lie in \<open>[0, 100]\<close>. In the KPI table of \<open>mixed\<close> the
  control group has one view, two clicks and one purchase on the first day, and its CTR
  is 200. For an Event table of one view and two purchases on one day, CVR is 200.
\<close>

theorem rates_exceed_100:
  "notebook counter mixed 42 g = Inr (mixed_data, mixed_kpi) \<and>
   nums mixed_kpi ''views'' ! 0 = Fin 1 \<and> nums mixed_kpi ''clicks'' ! 0 = Fin 2 \<and>
   nums mixed_kpi ''CTR'' ! 0 = Fin 200 \<and>
   kpi_data [ev ''view'' 0, ev ''purchase'' 30, ev ''purchase'' 50] =
     Inr [(''group'', StrCol [''control'']), (''date'', DayCol [0]),
          (''views'', NumCol [Fin 1]), (''clicks'', NumCol [Fin 0]),
          (''purchases'', NumCol [Fin 2]), (''revenue'', NumCol [Fin 80]),
          (''CVR'', NumCol [Fin 200]), (''AOV'', NumCol [Fin 40]), (''CTR'', NumCol [Fin 0])]"
proof -
  have "kpi_data [ev ''view'' 0, ev ''purchase'' 30, ev ''purchase'' 50] =
     Inr [(''group'', StrCol [''control'']), (''date'', DayCol [0]),
          (''views'', NumCol [Fin 1]), (''clicks'', NumCol [Fin 0]),
          (''purchases'', NumCol [Fin 2]), (''revenue'', NumCol [Fin 80]),
          (''CVR'', NumCol [Fin 200]), (''AOV'', NumCol [Fin 40]), (''CTR'', NumCol [Fin 0])]"
    by code_simp
  then show ?thesis
    by (simp add: mixed_notebook) (simp add: nums_def mixed_kpi_def)
qed

text \<open>
  Claim C4 expects CVR = 100 and CTR = 100 in the end-to-end scenario. There the five
  rows are all labelled \<open>purchase\<close> and AOV is the mean of the five revenues, but no row
  is left labelled \<open>view\<close> or \<open>click\<close>: the raw CVR is \<open>5/0\<close>, the raw CTR is \<open>0/0\<close>, and
  both KPIs are 0.
\<close>

theorem scenario_rates_are_zero:
  "notebook counter scenario 42 g = Inr (scenario_data, scenario_kpi) \<and>
   map event_type scenario_data = replicate 5 ''purchase'' \<and>
   nums scenario_kpi ''views'' = [Fin 0] \<and> nums scenario_kpi ''clicks'' = [Fin 0] \<and>
   nums scenario_kpi ''purchases'' = [Fin 5] \<and>
   nums (projr (raw_kpi_data scenario_data)) ''CVR'' = [PInf] \<and>
   nums (projr (raw_kpi_data scenario_data)) ''CTR'' = [NaN] \<and>
   nums scenario_kpi ''CVR'' = [Fin 0] \<and> nums scenario_kpi ''CTR'' = [Fin 0] \<and>
   nums scenario_kpi ''AOV'' = [Fin (sum_list (map revenue scenario_data) / 5)]"
proof -
  have raw: "nums (projr (raw_kpi_data scenario_data)) ''CVR'' = [PInf]"
    "nums (projr (raw_kpi_data scenario_data)) ''CTR'' = [NaN]"
    by code_simp+
  have data: "map event_type scenario_data = replicate 5 ''purchase''"
    "sum_list (map revenue scenario_data) / 5 = 110"
    by (simp_all add: scenario_data_def row_def numeral_eq_Suc)
  show ?thesis
    unfolding data raw by (simp add: scenario_notebook) (simp add: nums_def scenario_kpi_def)
qed

text \<open>
  Claim C5 states that the \<open>views\<close> counts of a group add up to the number of its rows
  in the Event table, promoted rows included. In the tables of \<open>mixed\<close> the control group
  has eight rows, one of them still labelled \<open>view\<close>, and its \<open>views\<close> counts add up
  to 1; the \<open>Non-Purchases\<close> entry of the control group is \<open>1 - 3 = -2\<close>.
\<close>

theorem views_sum_misses_promoted_rows:
  "notebook counter mixed 42 g = Inr (mixed_data, mixed_kpi) \<and>
   series_sum (nums (projr (control_data mixed_kpi)) ''views'') = Fin 1 \<and>
   length (filter (\<lambda>e. group_name e = ''control'') mixed_data) = 8 \<and>
   length (filter (\<lambda>e. group_name e = ''control'' \<and> event_type e = ''view'') mixed_data) = 1 \<and>
   non_purchases (projr (control_data mixed_kpi)) = Fin (- 2)"
proof -
  have "series_sum (nums (projr (control_data mixed_kpi)) ''views'') = Fin 1"
    and "non_purchases (projr (control_data mixed_kpi)) = Fin (- 2)"
    by code_simp+
  moreover have "length (filter (\<lambda>e. group_name e = ''control'') mixed_data) = 8"
    and "length (filter (\<lambda>e. group_name e = ''control'' \<and> event_type e = ''view'') mixed_data) = 1"
    by (simp_all add: mixed_data_def row_def)
  ultimately show ?thesis by (simp add: mixed_notebook)
qed

end
